theory Spec2Isabelle
  imports Main "HOL-Library.AList"
begin

unbundle bit_operations_syntax

section \<open>Path normalization\<close>

text \<open>
  Python's \<^verbatim>\<open>str.split(sep)\<close> with a one-character separator: the pieces between
  occurrences of the separator, empty pieces included; the empty string splits into one
  empty piece.
\<close>

fun split :: "char \<Rightarrow> string \<Rightarrow> string list" where
  "split sep [] = [[]]"
| "split sep (c # cs) =
     (if c = sep then [] # split sep cs
      else (case split sep cs of
              [] \<Rightarrow> [[c]]
            | w # ws \<Rightarrow> (c # w) # ws))"

text \<open>Python's \<^verbatim>\<open>sep.join(parts)\<close>.\<close>

fun join :: "string \<Rightarrow> string list \<Rightarrow> string" where
  "join sep [] = []"
| "join sep [x] = x"
| "join sep (x # y # ys) = x @ sep @ join sep (y # ys)"

text \<open>
  \<^verbatim>\<open>_normalize_path\<close> (an Isabelle name cannot start with an underscore): split at
  the slashes, drop the empty parts, join again, and put one slash in front unless nothing
  is left.
\<close>

definition normalize_path :: "string \<Rightarrow> string" where
  "normalize_path path =
     (let parts = split (CHR ''/'') path;
          parts = filter (\<lambda>part. part \<noteq> []) parts;
          path = join ''/'' parts
      in if length path = 0 then [] else ''/'' @ path)"

section \<open>Python values, exceptions and constants\<close>

text \<open>
  The exceptions the adapter can meet. \<open>StoreError\<close> stands for whatever a collaborator
  (the database client, \<^verbatim>\<open>dbutils\<close>, \<^verbatim>\<open>binarycache\<close>) raises; all of them are
  subclasses of \<^verbatim>\<open>Exception\<close>, so \<^verbatim>\<open>except Exception\<close> catches each one.
\<close>

datatype exn = ValueError | TypeError | KeyError | AttributeError | IOError | StoreError string

text \<open>
  The JSON values the live code reads out of a document: strings, integers and null.
  A document is a dictionary from field names to such values. Strings are byte strings.
\<close>

datatype pyval = PNone | PInt int | PStr string

type_synonym doc = "string \<rightharpoonup> pyval"

text \<open>Python floats are kept abstract: their arithmetic belongs to the environment.\<close>

typedecl pyfloat

text \<open>\<^verbatim>\<open>errno.ENOENT\<close> and \<^verbatim>\<open>errno.EACCES\<close>.\<close>

definition ENOENT :: int where
  "ENOENT = 2"

definition EACCES :: int where
  "EACCES = 13"

text \<open>
  \<^verbatim>\<open>stat.S_IFDIR\<close> (0o040000), \<^verbatim>\<open>stat.S_IFREG\<close> (0o100000) and the mask
  \<^verbatim>\<open>S_IFMT\<close> (0o170000) of the file-type bits of a mode.
\<close>

definition S_IFDIR :: int where
  "S_IFDIR = 16384"

definition S_IFREG :: int where
  "S_IFREG = 32768"

definition S_IFMT :: int where
  "S_IFMT = 61440"

text \<open>A value a callback returns: an object, or an integer code.\<close>

datatype 'a reply = Obj 'a | Code int

section \<open>The environment of the adapter\<close>

text \<open>
  What the adapter calls and does not define itself, taken as parameters: the process
  ids, \<^verbatim>\<open>datetime.strptime\<close> followed by \<^verbatim>\<open>calendar.timegm\<close> (\<open>None\<close> when the
  format does not match and \<^verbatim>\<open>ValueError\<close> is raised), and the backing store behind
  \<^verbatim>\<open>dbutils.get_folder\<close>, \<^verbatim>\<open>dbutils.get_file\<close>, the views of \<^verbatim>\<open>self.db\<close>
  (\<open>view e name key\<close> is what the store answers when the rows of the view \<open>name\<close> are
  fetched for \<open>key\<close>, each row given by its \<^verbatim>\<open>value\<close> dictionary),
  \<^verbatim>\<open>dbutils.get_disk_space\<close> and the fetch of a file's binary content. Each store call
  returns its result or raises.
\<close>

record env =
  getuid :: int
  getgid :: int
  strptime :: "string \<Rightarrow> string \<Rightarrow> int option"
  py_float :: "pyval \<Rightarrow> exn + pyfloat"
  float_mul :: "pyfloat \<Rightarrow> int \<Rightarrow> pyfloat"
  get_folder :: "string \<Rightarrow> exn + doc option"
  get_file :: "string \<Rightarrow> exn + doc option"
  view :: "string \<Rightarrow> string \<Rightarrow> exn + doc list"
  get_disk_space :: "exn + doc"
  fetch :: "string \<Rightarrow> exn + string"

text \<open>
  \<^verbatim>\<open>get_date\<close>: the first 24 characters of the date are tried against four formats in
  turn; the last failure is not caught. Slicing a value that is not a string raises
  \<^verbatim>\<open>TypeError\<close>.
\<close>

definition get_date :: "(string \<Rightarrow> string \<Rightarrow> int option) \<Rightarrow> pyval \<Rightarrow> exn + int" where
  "get_date parse ctime =
     (case ctime of
        PStr ctime \<Rightarrow>
          (let ctime = take 24 ctime in
           case parse ctime ''%Y-%m-%dT%H:%M:%S'' of
             Some date \<Rightarrow> Inr date
           | None \<Rightarrow>
               (case parse ctime ''%Y-%m-%dT%H:%M:%S.%fZ'' of
                  Some date \<Rightarrow> Inr date
                | None \<Rightarrow>
                    (case parse ctime ''%a %b %d %Y %H:%M:%S'' of
                       Some date \<Rightarrow> Inr date
                     | None \<Rightarrow>
                         (case parse ctime ''%a %b %d %H:%M:%S %Y'' of
                            Some date \<Rightarrow> Inr date
                          | None \<Rightarrow> Inl ValueError))))
      | _ \<Rightarrow> Inl TypeError)"

section \<open>File descriptors\<close>

record CouchStat =
  st_mode :: int
  st_ino :: int
  st_dev :: int
  st_nlink :: int
  st_uid :: int
  st_gid :: int
  st_size :: pyval
  st_atime :: int
  st_mtime :: int
  st_ctime :: int
  st_blocks :: int

text \<open>\<^verbatim>\<open>CouchStat.__init__\<close>: the default file descriptor.\<close>

definition CouchStat_init :: "env \<Rightarrow> CouchStat" where
  "CouchStat_init e =
     \<lparr>st_mode = 0, st_ino = 0, st_dev = 0, st_nlink = 0,
      st_uid = getuid e, st_gid = getgid e, st_size = PInt 4096,
      st_atime = 0, st_mtime = 0, st_ctime = 0, st_blocks = 0\<rparr>"

record StatVfs =
  f_bsize :: int
  f_frsize :: int
  f_blocks :: pyfloat
  f_bfree :: pyfloat
  f_bavail :: pyfloat
  f_files :: int
  f_ffree :: int

datatype Direntry = Direntry string

section \<open>The caches\<close>

text \<open>
  Modelled from the spec: the module \<^verbatim>\<open>cache\<close> (class \<^verbatim>\<open>Cache\<close>) is not among the
  sources. A cache entry is a key, a value and its insertion time; an entry is valid while
  \<open>now - insertion_time < TTL\<close>, and a cache built with no TTL never expires an entry.
  \<open>get\<close> gives the value or nothing; \<open>add\<close> overwrites an existing entry and resets its
  insertion time. Times are in seconds.
\<close>

record 'v cache =
  ttl :: "int option"
  entries :: "(string \<times> 'v \<times> int) list"

definition Cache :: "int option \<Rightarrow> 'v cache" where
  "Cache validity_period = \<lparr>ttl = validity_period, entries = []\<rparr>"

definition cache_get :: "int \<Rightarrow> 'v cache \<Rightarrow> string \<Rightarrow> 'v option" where
  "cache_get now c key =
     (case map_of (entries c) key of
        None \<Rightarrow> None
      | Some (v, inserted) \<Rightarrow>
          (case ttl c of
             None \<Rightarrow> Some v
           | Some period \<Rightarrow> if now - inserted < period then Some v else None))"

definition cache_add :: "int \<Rightarrow> 'v cache \<Rightarrow> string \<Rightarrow> 'v \<Rightarrow> 'v cache" where
  "cache_add now c key v = c\<lparr>entries := AList.update key (v, now) (entries c)\<rparr>"

text \<open>
  A cache holds the Python object it was given, not a copy: when that object changes
  later, the entry's value changes with it and the entry keeps its insertion time.
\<close>

definition cache_mutate :: "'v cache \<Rightarrow> string \<Rightarrow> 'v \<Rightarrow> 'v cache" where
  "cache_mutate c key v =
     (case map_of (entries c) key of
        None \<Rightarrow> c
      | Some (_, inserted) \<Rightarrow> c\<lparr>entries := AList.update key (v, inserted) (entries c)\<rparr>)"

definition ATTR_VALIDITY_PERIOD :: int where
  "ATTR_VALIDITY_PERIOD = 10"

section \<open>View results\<close>

text \<open>
  The result object of \<^verbatim>\<open>self.db.view(name, key=path)\<close>. The database client builds it
  without asking the store; the rows are fetched, with one request that can raise, when
  they are first read (by iterating over the result or taking its length), and the object
  keeps the rows it has fetched. \<open>None\<close> is a result whose rows are not fetched yet. The
  adapter caches the result of the view \<^verbatim>\<open>file/byFolder\<close> (\<^verbatim>\<open>folder/byFolder\<close>) for a
  path under that path in the file (folder) listing cache, so a cached result needs no name
  and key of its own.
\<close>

type_synonym ViewResults = "doc list option"

section \<open>The state of the adapter\<close>

text \<open>
  The four caches of \<^verbatim>\<open>CouchFSDocument\<close>, the locally materialized binary contents
  (path and content), and the requests sent to the backing store so far, oldest first.
  The last field is not in the source: it records each store call the code makes, so that
  a property can say that a call made none.
\<close>

datatype request =
  GetFolder string | GetFile string | View string string | GetDiskSpace | Fetch string

record state =
  file_size_cache :: "int cache"
  attr_cache :: "CouchStat cache"
  readdir_file_cache :: "ViewResults cache"
  readdir_folder_cache :: "ViewResults cache"
  binary_cache :: "(string \<times> string) list"
  requests :: "request list"

text \<open>
  The state \<^verbatim>\<open>__init__\<close> builds; \<open>bin\<close> is what the device's cache folder already
  holds.
\<close>

definition init_state :: "(string \<times> string) list \<Rightarrow> state" where
  "init_state bin =
     \<lparr>file_size_cache = Cache None,
      attr_cache = Cache (Some ATTR_VALIDITY_PERIOD),
      readdir_file_cache = Cache (Some ATTR_VALIDITY_PERIOD),
      readdir_folder_cache = Cache (Some ATTR_VALIDITY_PERIOD),
      binary_cache = bin,
      requests = []\<rparr>"

definition ask :: "request \<Rightarrow> state \<Rightarrow> state" where
  "ask r s = s\<lparr>requests := requests s @ [r]\<rparr>"

text \<open>
  Modelled from the spec: the module \<^verbatim>\<open>binarycache\<close> is not among the sources.
  \<open>is_cached\<close> tells whether a path is materialized; \<open>add\<close> fetches the file's binary from
  the backing store and writes the local copy; \<open>get\<close> opens the local copy, which fails
  when there is none.
\<close>

definition is_cached :: "state \<Rightarrow> string \<Rightarrow> bool" where
  "is_cached s path = (map_of (binary_cache s) path \<noteq> None)"

definition binary_add :: "env \<Rightarrow> string \<Rightarrow> state \<Rightarrow> (exn + unit) \<times> state" where
  "binary_add e path s =
     (let s = ask (Fetch path) s in
      case fetch e path of
        Inl x \<Rightarrow> (Inl x, s)
      | Inr content \<Rightarrow>
          (Inr (), s\<lparr>binary_cache := AList.update path content (binary_cache s)\<rparr>))"

definition binary_get :: "state \<Rightarrow> string \<Rightarrow> exn + string" where
  "binary_get s path =
     (case map_of (binary_cache s) path of
        None \<Rightarrow> Inl IOError
      | Some content \<Rightarrow> Inr content)"

section \<open>The callbacks of \<^verbatim>\<open>CouchFSDocument\<close>\<close>

text \<open>
  Every callback takes the state and gives it back with its result. A result \<open>Inl x\<close> is
  the exception \<open>x\<close> leaving the callback; \<open>now\<close> is the time of the call. Log lines are
  left out. The source's parameters \<^verbatim>\<open>size\<close> and \<^verbatim>\<open>times\<close> are written \<open>sz\<close> and
  \<open>ts\<close>, since HOL has constants of these names.
\<close>

subsection \<open>\<^verbatim>\<open>readdir\<close>\<close>

text \<open>
  The loop \<^verbatim>\<open>for doc in res: yield fuse.Direntry(doc.value['name'].encode('utf-8'))\<close>:
  the entries yielded, and the exception that stopped the loop if one did. A row without
  a name raises \<^verbatim>\<open>KeyError\<close>, a name that is not a string has no \<^verbatim>\<open>encode\<close>; on a
  byte string in UTF-8 the encoding changes nothing.
\<close>

fun direntries :: "doc list \<Rightarrow> Direntry list \<times> exn option" where
  "direntries [] = ([], None)"
| "direntries (doc # res) =
     (case doc ''name'' of
        None \<Rightarrow> ([], Some KeyError)
      | Some (PStr name) \<Rightarrow>
          (case direntries res of (rest, x) \<Rightarrow> (Direntry name # rest, x))
      | Some _ \<Rightarrow> ([], Some AttributeError))"

text \<open>
  The rows \<^verbatim>\<open>readdir\<close> iterates over for one view, lines 160 to 164 and again 167 to
  171: the result cached under the path while it is valid, else a new result, which is
  cached at once, before its rows are fetched; then the rows of that result, fetched from
  the store now unless the result holds them already. The fetched rows stay in the cached
  result. Given back: the rows or the exception, the cache, and the requests sent.
\<close>

definition listing ::
  "env \<Rightarrow> int \<Rightarrow> string \<Rightarrow> string \<Rightarrow> ViewResults cache
   \<Rightarrow> (exn + doc list) \<times> ViewResults cache \<times> request list" where
  "listing e now name path c =
     (case (case cache_get now c path of
              Some res \<Rightarrow> (res, c)
            | None \<Rightarrow> (None, cache_add now c path None)) of
        (Some rows, c) \<Rightarrow> (Inr rows, c, [])
      | (None, c) \<Rightarrow>
          (case view e name path of
             Inl x \<Rightarrow> (Inl x, c, [View name path])
           | Inr rows \<Rightarrow> (Inr rows, cache_mutate c path (Some rows), [View name path])))"

definition file_listing :: "env \<Rightarrow> int \<Rightarrow> string \<Rightarrow> state \<Rightarrow> (exn + doc list) \<times> state" where
  "file_listing e now path s =
     (case listing e now ''file/byFolder'' path (readdir_file_cache s) of
        (res, c, asked) \<Rightarrow>
          (res, s\<lparr>readdir_file_cache := c, requests := requests s @ asked\<rparr>))"

definition folder_listing :: "env \<Rightarrow> int \<Rightarrow> string \<Rightarrow> state \<Rightarrow> (exn + doc list) \<times> state" where
  "folder_listing e now path s =
     (case listing e now ''folder/byFolder'' path (readdir_folder_cache s) of
        (res, c, asked) \<Rightarrow>
          (res, s\<lparr>readdir_folder_cache := c, requests := requests s @ asked\<rparr>))"

text \<open>
  \<^verbatim>\<open>readdir\<close> is a generator with no exception handler: run to its end, it gives the
  entries it yielded, in order, and the exception that ended it, if any.
\<close>

definition readdir ::
  "env \<Rightarrow> int \<Rightarrow> string \<Rightarrow> int \<Rightarrow> state \<Rightarrow> (Direntry list \<times> exn option) \<times> state" where
  "readdir e now path offset s =
     (let path = normalize_path path;
          conventional = [Direntry ''.'', Direntry ''..'']
      in case file_listing e now path s of
           (Inl x, s) \<Rightarrow> ((conventional, Some x), s)
         | (Inr res, s) \<Rightarrow>
             (case direntries res of
                (files, Some x) \<Rightarrow> ((conventional @ files, Some x), s)
              | (files, None) \<Rightarrow>
                  (case folder_listing e now path s of
                     (Inl x, s) \<Rightarrow> ((conventional @ files, Some x), s)
                   | (Inr res, s) \<Rightarrow>
                       (case direntries res of
                          (folders, x) \<Rightarrow> ((conventional @ files @ folders, x), s)))))"

subsection \<open>\<^verbatim>\<open>getattr\<close>\<close>

text \<open>
  The timestamps of a descriptor, from the document's \<^verbatim>\<open>lastModification\<close> when it has
  one.
\<close>

definition set_times :: "env \<Rightarrow> doc \<Rightarrow> CouchStat \<Rightarrow> exn + CouchStat" where
  "set_times e d st =
     (case d ''lastModification'' of
        None \<Rightarrow> Inr st
      | Some modified \<Rightarrow>
          (case get_date (strptime e) modified of
             Inl x \<Rightarrow> Inl x
           | Inr t \<Rightarrow> Inr (st\<lparr>st_atime := t, st_ctime := t, st_mtime := t\<rparr>)))"

text \<open>
  The descriptor of a path that is not cached, inside the \<^verbatim>\<open>try\<close>. The test
  \<^verbatim>\<open>path is "/"\<close> compares objects; CPython keeps one object for each one-character
  string, so for this literal it holds exactly when the path equals \<^verbatim>\<open>"/"\<close>. A path
  that is neither the root, a folder nor a file keeps the default descriptor.
\<close>

definition resolve :: "env \<Rightarrow> string \<Rightarrow> state \<Rightarrow> (exn + CouchStat) \<times> state" where
  "resolve e path s =
     (let st = CouchStat_init e in
      if path = ''/'' then
        (Inr (st\<lparr>st_mode := S_IFDIR OR 509, st_nlink := 2\<rparr>), s)
      else
        (let s = ask (GetFolder path) s in
         case get_folder e path of
           Inl x \<Rightarrow> (Inl x, s)
         | Inr (Some folder) \<Rightarrow>
             (set_times e folder (st\<lparr>st_mode := S_IFDIR OR 509, st_nlink := 2\<rparr>), s)
         | Inr None \<Rightarrow>
             (let s = ask (GetFile path) s in
              case get_file e path of
                Inl x \<Rightarrow> (Inl x, s)
              | Inr (Some file_doc) \<Rightarrow>
                  (set_times e file_doc
                     (st\<lparr>st_mode := S_IFREG OR 436, st_nlink := 1,
                         st_size := (case file_doc ''size'' of
                                       None \<Rightarrow> PInt 4096
                                     | Some v \<Rightarrow> v)\<rparr>), s)
              | Inr None \<Rightarrow> (Inr st, s))))"

text \<open>
  The \<^verbatim>\<open>try\<close> block of \<^verbatim>\<open>getattr\<close>: the cached descriptor while it is valid, else the
  resolved one, which is cached under the path as given.
\<close>

definition getattr_try :: "env \<Rightarrow> int \<Rightarrow> string \<Rightarrow> state \<Rightarrow> (exn + CouchStat) \<times> state" where
  "getattr_try e now path s =
     (case cache_get now (attr_cache s) path of
        Some st \<Rightarrow> (Inr st, s)
      | None \<Rightarrow>
          (case resolve e path s of
             (Inl x, s) \<Rightarrow> (Inl x, s)
           | (Inr st, s) \<Rightarrow>
               (Inr st, s\<lparr>attr_cache := cache_add now (attr_cache s) path st\<rparr>)))"

definition getattr ::
  "env \<Rightarrow> int \<Rightarrow> string \<Rightarrow> state \<Rightarrow> (exn + CouchStat reply) \<times> state" where
  "getattr e now path s =
     (case getattr_try e now path s of
        (Inr st, s) \<Rightarrow> (Inr (Obj st), s)
      | (Inl x, s) \<Rightarrow> (Inr (Code (- ENOENT)), s))"

subsection \<open>\<^verbatim>\<open>open\<close>\<close>

text \<open>
  The \<^verbatim>\<open>try\<close> block of \<^verbatim>\<open>open\<close>: \<^verbatim>\<open>len(res)\<close> fetches the rows of the view
  \<^verbatim>\<open>file/byFullPath\<close> for the path, with one request to the store.
\<close>

definition open_try :: "env \<Rightarrow> string \<Rightarrow> state \<Rightarrow> (exn + int) \<times> state" where
  "open_try e path s =
     (let s = ask (View ''file/byFullPath'' path) s in
      case view e ''file/byFullPath'' path of
        Inl x \<Rightarrow> (Inl x, s)
      | Inr res \<Rightarrow> (Inr (if length res > 0 then 0 else - ENOENT), s))"

definition "open" :: "env \<Rightarrow> string \<Rightarrow> int \<Rightarrow> state \<Rightarrow> (exn + int) \<times> state" where
  "open e path flags s =
     (let path = normalize_path path in
      case open_try e path s of
        (Inr r, s) \<Rightarrow> (Inr r, s)
      | (Inl x, s) \<Rightarrow> (Inr (- ENOENT), s))"

subsection \<open>\<^verbatim>\<open>read\<close>\<close>

text \<open>
  \<^verbatim>\<open>seek(offset)\<close> and \<^verbatim>\<open>read(size)\<close> on the local copy: a negative offset is refused
  with \<^verbatim>\<open>IOError\<close>; a negative size reads to the end of the file.
\<close>

definition seek_read :: "string \<Rightarrow> int \<Rightarrow> int \<Rightarrow> exn + string" where
  "seek_read content offset sz =
     (if offset < 0 then Inl IOError
      else (let rest = drop (nat offset) content
            in Inr (if sz < 0 then rest else take (nat sz) rest)))"

text \<open>
  The content length of an open local copy: the cached one, else the size of the file,
  which is then cached.
\<close>

definition content_length_of :: "int \<Rightarrow> string \<Rightarrow> string \<Rightarrow> state \<Rightarrow> int \<times> state" where
  "content_length_of now path binary_attachment s =
     (case cache_get now (file_size_cache s) path of
        Some content_length \<Rightarrow> (content_length, s)
      | None \<Rightarrow>
          (let content_length = int (length binary_attachment)
           in (content_length,
               s\<lparr>file_size_cache := cache_add now (file_size_cache s) path content_length\<rparr>)))"

definition read_try ::
  "env \<Rightarrow> int \<Rightarrow> string \<Rightarrow> int \<Rightarrow> int \<Rightarrow> state \<Rightarrow> (exn + string) \<times> state" where
  "read_try e now path sz offset s =
     (let path = normalize_path path in
      case (if \<not> is_cached s path then binary_add e path s else (Inr (), s)) of
        (Inl x, s) \<Rightarrow> (Inl x, s)
      | (Inr _, s) \<Rightarrow>
          (case binary_get s path of
             Inl x \<Rightarrow> (Inl x, s)
           | Inr binary_attachment \<Rightarrow>
               (case content_length_of now path binary_attachment s of
                  (content_length, s) \<Rightarrow>
                    if offset < content_length then
                      (let sz = (if offset + sz > content_length
                                   then content_length - offset else sz)
                       in (seek_read binary_attachment offset sz, s))
                    else (Inr [], s))))"

definition read ::
  "env \<Rightarrow> int \<Rightarrow> string \<Rightarrow> int \<Rightarrow> int \<Rightarrow> state \<Rightarrow> (exn + string reply) \<times> state" where
  "read e now path sz offset s =
     (case read_try e now path sz offset s of
        (Inr buf, s) \<Rightarrow> (Inr (Obj buf), s)
      | (Inl x, s) \<Rightarrow> (Inr (Code (- ENOENT)), s))"

subsection \<open>The callbacks that only return a code\<close>

definition "write" :: "string \<Rightarrow> string \<Rightarrow> int \<Rightarrow> state \<Rightarrow> (exn + int) \<times> state" where
  "write path buf offset s = (Inr EACCES, s)"

definition release :: "string \<Rightarrow> int \<Rightarrow> state \<Rightarrow> (exn + int) \<times> state" where
  "release path fuse_file_info s = (Inr 0, s)"

definition mknod :: "string \<Rightarrow> int \<Rightarrow> int \<Rightarrow> state \<Rightarrow> (exn + int) \<times> state" where
  "mknod path mode dev s = (Inr EACCES, s)"

definition unlink :: "string \<Rightarrow> state \<Rightarrow> (exn + int) \<times> state" where
  "unlink path s = (Inr EACCES, s)"

definition truncate :: "string \<Rightarrow> int \<Rightarrow> state \<Rightarrow> (exn + int) \<times> state" where
  "truncate path sz s = (Inr 0, s)"

definition utime :: "string \<Rightarrow> int \<times> int \<Rightarrow> state \<Rightarrow> (exn + int) \<times> state" where
  "utime path ts s = (Inr 0, s)"

definition mkdir :: "string \<Rightarrow> int \<Rightarrow> state \<Rightarrow> (exn + int) \<times> state" where
  "mkdir path mode s = (Inr EACCES, s)"

definition rmdir :: "string \<Rightarrow> state \<Rightarrow> (exn + int) \<times> state" where
  "rmdir path s = (Inr EACCES, s)"

definition rename :: "string \<Rightarrow> string \<Rightarrow> bool \<Rightarrow> state \<Rightarrow> (exn + int) \<times> state" where
  "rename pathfrom pathto root s = (Inr EACCES, s)"

definition fsync :: "string \<Rightarrow> int \<Rightarrow> state \<Rightarrow> (exn + int) \<times> state" where
  "fsync path isfsyncfile s = (Inr 0, s)"

definition chmod :: "string \<Rightarrow> int \<Rightarrow> state \<Rightarrow> (exn + int) \<times> state" where
  "chmod path mode s = (Inr 0, s)"

definition chown :: "string \<Rightarrow> int \<Rightarrow> int \<Rightarrow> state \<Rightarrow> (exn + int) \<times> state" where
  "chown path uid gid s = (Inr 0, s)"

subsection \<open>\<^verbatim>\<open>statfs\<close>\<close>

text \<open>\<^verbatim>\<open>float(disk_space[key]) * 1000 * 1000\<close>.\<close>

definition megabytes :: "env \<Rightarrow> doc \<Rightarrow> string \<Rightarrow> exn + pyfloat" where
  "megabytes e disk_space key =
     (case disk_space key of
        None \<Rightarrow> Inl KeyError
      | Some v \<Rightarrow>
          (case py_float e v of
             Inl x \<Rightarrow> Inl x
           | Inr f \<Rightarrow> Inr (float_mul e (float_mul e f 1000) 1000)))"

definition statfs :: "env \<Rightarrow> state \<Rightarrow> (exn + StatVfs) \<times> state" where
  "statfs e s =
     (let s = ask GetDiskSpace s in
      case get_disk_space e of
        Inl x \<Rightarrow> (Inl x, s)
      | Inr disk_space \<Rightarrow>
          (case megabytes e disk_space ''totalDiskSpace'' of
             Inl x \<Rightarrow> (Inl x, s)
           | Inr blocks \<Rightarrow>
               (let block_size = 1000 in
                case megabytes e disk_space ''freeDiskSpace'' of
                  Inl x \<Rightarrow> (Inl x, s)
                | Inr blocks_free \<Rightarrow>
                    (let blocks_avail = blocks_free; files = 0; files_free = 0
                     in (Inr \<lparr>f_bsize = block_size, f_frsize = block_size,
                               f_blocks = blocks, f_bfree = blocks_free,
                               f_bavail = blocks_avail, f_files = files,
                               f_ffree = files_free\<rparr>, s)))))"

section \<open>The states the adapter reaches\<close>

text \<open>
  The adapter starts in the state \<^verbatim>\<open>__init__\<close> builds and then serves callbacks, one at
  a time, each against a backing store and environment out of \<open>E\<close>: with \<open>E = UNIV\<close> the
  store may be any at each call, with \<open>E = {e}\<close> it stays the same.
\<close>

inductive reachable :: "env set \<Rightarrow> state \<Rightarrow> bool" for E :: "env set" where
  reach_init: "reachable E (init_state bin)"
| reach_readdir:
    "reachable E s \<Longrightarrow> e \<in> E \<Longrightarrow> reachable E (snd (readdir e now path offset s))"
| reach_getattr:
    "reachable E s \<Longrightarrow> e \<in> E \<Longrightarrow> reachable E (snd (getattr e now path s))"
| reach_open:
    "reachable E s \<Longrightarrow> e \<in> E \<Longrightarrow> reachable E (snd (open e path flags s))"
| reach_read:
    "reachable E s \<Longrightarrow> e \<in> E \<Longrightarrow> reachable E (snd (read e now path sz offset s))"
| reach_statfs:
    "reachable E s \<Longrightarrow> e \<in> E \<Longrightarrow> reachable E (snd (statfs e s))"
| reach_write: "reachable E s \<Longrightarrow> reachable E (snd (write path buf off s))"
| reach_release: "reachable E s \<Longrightarrow> reachable E (snd (release path info s))"
| reach_mknod: "reachable E s \<Longrightarrow> reachable E (snd (mknod path mode dev s))"
| reach_unlink: "reachable E s \<Longrightarrow> reachable E (snd (unlink path s))"
| reach_truncate: "reachable E s \<Longrightarrow> reachable E (snd (truncate path sz s))"
| reach_utime: "reachable E s \<Longrightarrow> reachable E (snd (utime path ts s))"
| reach_mkdir: "reachable E s \<Longrightarrow> reachable E (snd (mkdir path mode s))"
| reach_rmdir: "reachable E s \<Longrightarrow> reachable E (snd (rmdir path s))"
| reach_rename: "reachable E s \<Longrightarrow> reachable E (snd (rename pathfrom pathto root s))"
| reach_fsync: "reachable E s \<Longrightarrow> reachable E (snd (fsync path isfsyncfile s))"
| reach_chmod: "reachable E s \<Longrightarrow> reachable E (snd (chmod path mode s))"
| reach_chown: "reachable E s \<Longrightarrow> reachable E (snd (chown path uid gid s))"

section \<open>Invariants of the adapter's state\<close>

text \<open>
  The rows the cached results hold are those the backing store \<open>e\<close> gives for their keys.
\<close>

definition rows_from :: "env \<Rightarrow> string \<Rightarrow> ViewResults cache \<Rightarrow> bool" where
  "rows_from e name c \<longleftrightarrow>
     list_all (\<lambda>(k, res, t). case res of None \<Rightarrow> True | Some rows \<Rightarrow> view e name k = Inr rows)
       (entries c)"

definition listing_ok :: "env \<Rightarrow> state \<Rightarrow> bool" where
  "listing_ok e s \<longleftrightarrow>
     rows_from e ''file/byFolder'' (readdir_file_cache s)
   \<and> rows_from e ''folder/byFolder'' (readdir_folder_cache s)"

text \<open>
  The listing \<^verbatim>\<open>readdir\<close> works with for a key, given the store's answer at the call:
  the rows of the result cached under the key while it is valid, if they are fetched, and
  else the store's answer.
\<close>

definition listing_in_effect ::
  "int \<Rightarrow> ViewResults cache \<Rightarrow> exn + doc list \<Rightarrow> string \<Rightarrow> exn + doc list" where
  "listing_in_effect now c answer key =
     (case cache_get now c key of
        Some (Some rows) \<Rightarrow> Inr rows
      | _ \<Rightarrow> answer)"

text \<open>
  The cache holds no entry for the key that was added less than the validity period ago.
\<close>

definition no_recent :: "int \<Rightarrow> 'v cache \<Rightarrow> string \<Rightarrow> bool" where
  "no_recent now c key \<longleftrightarrow>
     list_all (\<lambda>(k, v, t). k \<noteq> key \<or> ATTR_VALIDITY_PERIOD \<le> now - t) (entries c)"

text \<open>The two listing caches expire their entries after the validity period.\<close>

definition listings_expire :: "state \<Rightarrow> bool" where
  "listings_expire s \<longleftrightarrow>
     ttl (readdir_file_cache s) = Some ATTR_VALIDITY_PERIOD
   \<and> ttl (readdir_folder_cache s) = Some ATTR_VALIDITY_PERIOD"

text \<open>
  A descriptor cached for the root path is a directory descriptor with link count 2.
\<close>

definition root_ok :: "state \<Rightarrow> bool" where
  "root_ok s \<longleftrightarrow>
     list_all (\<lambda>(k, st, t). k \<noteq> ''/'' \<or> (st_mode st = S_IFDIR OR 509 \<and> st_nlink st = 2))
       (entries (attr_cache s))"

text \<open>
  A cached content length is the length of the materialized content of its path.
\<close>

definition sizes_ok :: "state \<Rightarrow> bool" where
  "sizes_ok s \<longleftrightarrow>
     list_all (\<lambda>(k, n, t). case map_of (binary_cache s) k of
                              None \<Rightarrow> False
                            | Some content \<Rightarrow> n = int (length content))
       (entries (file_size_cache s))"

text \<open>
  The state once \<^verbatim>\<open>read\<close> has made sure that the path is materialized.
\<close>

definition ensured :: "env \<Rightarrow> string \<Rightarrow> state \<Rightarrow> state" where
  "ensured e path s = (if is_cached s path then s else snd (binary_add e path s))"

text \<open>
  A row that carries a name, as every Folder and File record does, and the entry
  \<^verbatim>\<open>readdir\<close> yields for it.
\<close>

definition named :: "doc \<Rightarrow> bool" where
  "named d = (case d ''name'' of Some (PStr name) \<Rightarrow> True | _ \<Rightarrow> False)"

definition entry_of :: "doc \<Rightarrow> Direntry" where
  "entry_of d = Direntry (case d ''name'' of Some (PStr name) \<Rightarrow> name | _ \<Rightarrow> [])"

text \<open>
  What a run of \<^verbatim>\<open>readdir\<close> yields, given the outcome of its file listing and of its
  folder listing.
\<close>

definition yielded :: "exn + doc list \<Rightarrow> exn + doc list \<Rightarrow> Direntry list \<times> exn option" where
  "yielded file_res folder_res =
     (let conventional = [Direntry ''.'', Direntry ''..''] in
      case file_res of
        Inl x \<Rightarrow> (conventional, Some x)
      | Inr res \<Rightarrow>
          (case direntries res of
             (files, Some x) \<Rightarrow> (conventional @ files, Some x)
           | (files, None) \<Rightarrow>
               (case folder_res of
                  Inl x \<Rightarrow> (conventional @ files, Some x)
                | Inr res \<Rightarrow>
                    (case direntries res of
                       (folders, x) \<Rightarrow> (conventional @ files @ folders, x)))))"

text \<open>The keys of a cache, and a cache whose keys are all normalized paths.\<close>

definition cache_keys :: "'v cache \<Rightarrow> string set" where
  "cache_keys c = fst ` set (entries c)"

definition normalized_keys :: "'v cache \<Rightarrow> bool" where
  "normalized_keys c \<longleftrightarrow> list_all (\<lambda>entry. normalize_path (fst entry) = fst entry) (entries c)"

section \<open>Example stores\<close>

text \<open>A store with no record at all, whose quota and binary services fail.\<close>

definition empty_store :: env where
  "empty_store =
     \<lparr>getuid = 1000, getgid = 1000,
      strptime = (\<lambda>_ _. None),
      py_float = (\<lambda>_. Inl TypeError),
      float_mul = (\<lambda>f _. f),
      get_folder = (\<lambda>_. Inr None),
      get_file = (\<lambda>_. Inr None),
      view = (\<lambda>_ _. Inr []),
      get_disk_space = Inl (StoreError ''no quota''),
      fetch = (\<lambda>_. Inl (StoreError ''no binary''))\<rparr>"

text \<open>
  The store of the scenario: a folder \<^verbatim>\<open>/docs\<close> and a file \<^verbatim>\<open>/docs/a.txt\<close> of 42
  bytes.
\<close>

definition a_txt :: doc where
  "a_txt = [''name'' \<mapsto> PStr ''a.txt'', ''path'' \<mapsto> PStr ''/docs'', ''size'' \<mapsto> PInt 42,
            ''lastModification'' \<mapsto> PStr ''2014-05-07T09:17:48'']"

definition docs_folder :: doc where
  "docs_folder = [''name'' \<mapsto> PStr ''docs'', ''path'' \<mapsto> PStr [],
                  ''lastModification'' \<mapsto> PStr ''2014-05-06T10:00:00'']"

definition docs_store :: env where
  "docs_store =
     \<lparr>getuid = 1000, getgid = 1000,
      strptime = (\<lambda>ctime format.
         if format = ''%Y-%m-%dT%H:%M:%S'' \<and> ctime = ''2014-05-07T09:17:48'' then Some 1399454268
         else if format = ''%Y-%m-%dT%H:%M:%S'' \<and> ctime = ''2014-05-06T10:00:00'' then Some 1399370400
         else None),
      py_float = (\<lambda>_. Inl TypeError),
      float_mul = (\<lambda>f _. f),
      get_folder = (\<lambda>path. Inr (if path = ''/docs'' then Some docs_folder else None)),
      get_file = (\<lambda>path. Inr (if path = ''/docs/a.txt'' then Some a_txt else None)),
      view = (\<lambda>name key. Inr (
         if name = ''file/byFolder'' \<and> key = ''/docs'' then [a_txt]
         else if name = ''file/byFullPath'' \<and> key = ''/docs/a.txt'' then [a_txt]
         else if name = ''folder/byFolder'' \<and> key = [] then [docs_folder]
         else [])),
      get_disk_space = Inl (StoreError ''no quota''),
      fetch = (\<lambda>path. if path = ''/docs/a.txt'' then Inr (replicate 42 (CHR ''x''))
                       else Inl (StoreError ''no binary''))\<rparr>"

text \<open>A store that is down: every call to it raises.\<close>

definition failing_store :: env where
  "failing_store =
     \<lparr>getuid = 1000, getgid = 1000,
      strptime = (\<lambda>_ _. None),
      py_float = (\<lambda>_. Inl TypeError),
      float_mul = (\<lambda>f _. f),
      get_folder = (\<lambda>_. Inl (StoreError ''down'')),
      get_file = (\<lambda>_. Inl (StoreError ''down'')),
      view = (\<lambda>_ _. Inl (StoreError ''down'')),
      get_disk_space = Inl (StoreError ''down''),
      fetch = (\<lambda>_. Inl (StoreError ''down''))\<rparr>"

section \<open>Properties of path normalization\<close>

lemma split_not_Nil: "split sep s \<noteq> []"
  by (induction s) (auto split: list.splits)

lemma split_no_sep: "sep \<notin> set s \<Longrightarrow> split sep s = [s]"
  by (induction s) auto

lemma split_append_sep:
  "sep \<notin> set w \<Longrightarrow> split sep (w @ sep # rest) = w # split sep rest"
  by (induction w) auto

lemma split_parts_no_sep: "w \<in> set (split sep s) \<Longrightarrow> sep \<notin> set w"
proof (induction s arbitrary: w)
  case Nil
  then show ?case by simp
next
  case (Cons c cs)
  show ?case
  proof (cases "c = sep")
    case True
    with Cons show ?thesis by auto
  next
    case False
    obtain v vs where vs: "split sep cs = v # vs"
      using split_not_Nil [of sep cs] by (cases "split sep cs") auto
    with False Cons.prems have "w = c # v \<or> w \<in> set vs" by simp
    then show ?thesis
    proof
      assume "w = c # v"
      moreover have "sep \<notin> set v" using Cons.IH [of v] vs by simp
      ultimately show ?thesis using False by auto
    next
      assume "w \<in> set vs"
      then show ?thesis using Cons.IH [of w] vs by simp
    qed
  qed
qed

lemma split_join:
  "parts \<noteq> [] \<Longrightarrow> \<forall>w \<in> set parts. sep \<notin> set w \<Longrightarrow> split sep (join [sep] parts) = parts"
proof (induction parts)
  case Nil
  then show ?case by simp
next
  case (Cons x xs)
  show ?case
  proof (cases xs)
    case Nil
    with Cons.prems show ?thesis by (simp add: split_no_sep)
  next
    case (Cons y ys)
    with Cons.IH Cons.prems show ?thesis by (simp add: split_append_sep)
  qed
qed

lemma join_eq_Nil: "\<forall>w \<in> set parts. w \<noteq> [] \<Longrightarrow> join sep parts = [] \<longleftrightarrow> parts = []"
  by (induction sep parts rule: join.induct) auto

lemma normalize_path_parts:
  assumes "\<forall>w \<in> set parts. w \<noteq> [] \<and> CHR ''/'' \<notin> set w"
  shows "normalize_path (if parts = [] then [] else ''/'' @ join ''/'' parts)
           = (if parts = [] then [] else ''/'' @ join ''/'' parts)"
proof (cases "parts = []")
  case True
  then show ?thesis by (simp add: normalize_path_def)
next
  case False
  have "split (CHR ''/'') (''/'' @ join ''/'' parts) = [] # parts"
    using split_join [of parts "CHR ''/''"] False assms by simp
  moreover have "filter (\<lambda>part. part \<noteq> []) parts = parts"
    using assms by (simp add: filter_id_conv)
  ultimately show ?thesis
    using False assms join_eq_Nil [of parts "''/''"]
    by (simp add: normalize_path_def Let_def)
qed

lemma normalize_path_fixed: "normalize_path (normalize_path p) = normalize_path p"
proof -
  define parts where "parts = filter (\<lambda>part. part \<noteq> []) (split (CHR ''/'') p)"
  have ok: "\<forall>w \<in> set parts. w \<noteq> [] \<and> CHR ''/'' \<notin> set w"
    using split_parts_no_sep [of _ "CHR ''/''" p] by (auto simp: parts_def)
  have np: "normalize_path p = (if parts = [] then [] else ''/'' @ join ''/'' parts)"
    using ok join_eq_Nil [of parts "''/''"]
    by (simp add: normalize_path_def Let_def parts_def [symmetric])
  show ?thesis
    unfolding np by (rule normalize_path_parts [OF ok])
qed

text \<open>
  C7. Path normalization is idempotent: normalizing a normalized path gives it back, for
  every string; \<^verbatim>\<open>"/a//b/"\<close> normalizes to \<^verbatim>\<open>"/a/b"\<close> and the empty string to
  itself.
\<close>

theorem normalize_path_idempotent:
  "normalize_path (normalize_path p) = normalize_path p
   \<and> normalize_path ''/a//b/'' = ''/a/b''
   \<and> normalize_path '''' = ''''"
proof -
  have "normalize_path ''/a//b/'' = ''/a/b''"
    by (simp add: normalize_path_def)
  moreover have "normalize_path '''' = ''''"
    by (simp add: normalize_path_def)
  ultimately show ?thesis
    by (simp add: normalize_path_fixed)
qed

section \<open>What each callback changes\<close>

lemma set_update_subset: "set (AList.update k v al) \<subseteq> insert (k, v) (set al)"
  by (induction al) auto

lemma list_all_update:
  "list_all P al \<Longrightarrow> P (k, v) \<Longrightarrow> list_all P (AList.update k v al)"
  using set_update_subset [of k v al] by (auto simp: list_all_iff)

lemma cache_get_entry:
  assumes "cache_get now c key = Some v"
  shows "\<exists>t. (key, v, t) \<in> set (entries c)"
proof (cases "map_of (entries c) key")
  case None
  with assms show ?thesis by (simp add: cache_get_def)
next
  case (Some a)
  obtain v' t where a: "a = (v', t)" by (cases a)
  with Some assms have "v' = v"
    by (simp add: cache_get_def split: option.splits if_splits)
  with Some a show ?thesis using map_of_SomeD [of "entries c" key "(v, t)"] by auto
qed

lemma snd_readdir:
  "snd (readdir e now path offset s) = s'
   \<Longrightarrow> s' = snd (file_listing e now (normalize_path path) s)
     \<or> s' = snd (folder_listing e now (normalize_path path) (snd (file_listing e now (normalize_path path) s)))"
  by (auto simp: readdir_def Let_def split: prod.splits sum.splits option.splits)

lemma resolve_frame:
  "file_size_cache (snd (resolve e path s)) = file_size_cache s"
  "attr_cache (snd (resolve e path s)) = attr_cache s"
  "readdir_file_cache (snd (resolve e path s)) = readdir_file_cache s"
  "readdir_folder_cache (snd (resolve e path s)) = readdir_folder_cache s"
  "binary_cache (snd (resolve e path s)) = binary_cache s"
  by (simp_all add: resolve_def ask_def Let_def split: option.splits sum.splits)

lemma getattr_try_frame:
  "file_size_cache (snd (getattr_try e now path s)) = file_size_cache s"
  "readdir_file_cache (snd (getattr_try e now path s)) = readdir_file_cache s"
  "readdir_folder_cache (snd (getattr_try e now path s)) = readdir_folder_cache s"
  "binary_cache (snd (getattr_try e now path s)) = binary_cache s"
  using resolve_frame [of e path s]
  by (auto simp: getattr_try_def split: option.splits sum.splits prod.splits)

lemma getattr_try_attr_cache:
  "attr_cache (snd (getattr_try e now path s)) = attr_cache s
   \<or> (\<exists>st. fst (resolve e path s) = Inr st
          \<and> attr_cache (snd (getattr_try e now path s)) = cache_add now (attr_cache s) path st)"
  using resolve_frame(2) [of e path s]
  by (auto simp: getattr_try_def split: option.splits sum.splits prod.splits)

lemma snd_getattr: "snd (getattr e now path s) = snd (getattr_try e now path s)"
  by (simp add: getattr_def split: prod.splits sum.splits)

lemma open_frame:
  "file_size_cache (snd (open e path flags s)) = file_size_cache s"
  "attr_cache (snd (open e path flags s)) = attr_cache s"
  "readdir_file_cache (snd (open e path flags s)) = readdir_file_cache s"
  "readdir_folder_cache (snd (open e path flags s)) = readdir_folder_cache s"
  "binary_cache (snd (open e path flags s)) = binary_cache s"
  by (simp_all add: open_def open_try_def ask_def Let_def split: sum.splits)

lemma statfs_frame:
  "file_size_cache (snd (statfs e s)) = file_size_cache s"
  "attr_cache (snd (statfs e s)) = attr_cache s"
  "readdir_file_cache (snd (statfs e s)) = readdir_file_cache s"
  "readdir_folder_cache (snd (statfs e s)) = readdir_folder_cache s"
  "binary_cache (snd (statfs e s)) = binary_cache s"
  by (simp_all add: statfs_def ask_def Let_def split: sum.splits)

lemma file_listing_cache:
  "readdir_file_cache (snd (file_listing e now path s))
     = fst (snd (listing e now ''file/byFolder'' path (readdir_file_cache s)))"
  by (simp add: file_listing_def split: prod.splits)

lemma folder_listing_cache:
  "readdir_folder_cache (snd (folder_listing e now path s))
     = fst (snd (listing e now ''folder/byFolder'' path (readdir_folder_cache s)))"
  by (simp add: folder_listing_def split: prod.splits)

lemma file_listing_frame:
  "file_size_cache (snd (file_listing e now path s)) = file_size_cache s"
  "attr_cache (snd (file_listing e now path s)) = attr_cache s"
  "readdir_folder_cache (snd (file_listing e now path s)) = readdir_folder_cache s"
  "binary_cache (snd (file_listing e now path s)) = binary_cache s"
  by (simp_all add: file_listing_def split: prod.splits)

lemma folder_listing_frame:
  "file_size_cache (snd (folder_listing e now path s)) = file_size_cache s"
  "attr_cache (snd (folder_listing e now path s)) = attr_cache s"
  "readdir_file_cache (snd (folder_listing e now path s)) = readdir_file_cache s"
  "binary_cache (snd (folder_listing e now path s)) = binary_cache s"
  by (simp_all add: folder_listing_def split: prod.splits)

lemma readdir_frame:
  "file_size_cache (snd (readdir e now path offset s)) = file_size_cache s"
  "attr_cache (snd (readdir e now path offset s)) = attr_cache s"
  "binary_cache (snd (readdir e now path offset s)) = binary_cache s"
  using snd_readdir [OF refl, of e now path offset s]
  by (auto simp: file_listing_frame folder_listing_frame)

lemma binary_add_frame:
  "file_size_cache (snd (binary_add e path s)) = file_size_cache s"
  "attr_cache (snd (binary_add e path s)) = attr_cache s"
  "readdir_file_cache (snd (binary_add e path s)) = readdir_file_cache s"
  "readdir_folder_cache (snd (binary_add e path s)) = readdir_folder_cache s"
  by (simp_all add: binary_add_def ask_def Let_def split: sum.splits)

lemma content_length_of_frame:
  "attr_cache (snd (content_length_of now path b s)) = attr_cache s"
  "readdir_file_cache (snd (content_length_of now path b s)) = readdir_file_cache s"
  "readdir_folder_cache (snd (content_length_of now path b s)) = readdir_folder_cache s"
  "binary_cache (snd (content_length_of now path b s)) = binary_cache s"
  by (simp_all add: content_length_of_def Let_def split: option.splits)

lemma snd_read_try:
  "snd (read_try e now path sz offset s) = ensured e (normalize_path path) s
   \<or> (\<exists>b. binary_get (ensured e (normalize_path path) s) (normalize_path path) = Inr b
          \<and> snd (read_try e now path sz offset s)
              = snd (content_length_of now (normalize_path path) b
                       (ensured e (normalize_path path) s)))"
  by (auto simp: read_try_def ensured_def Let_def split: prod.splits sum.splits)

lemma snd_read: "snd (read e now path sz offset s) = snd (read_try e now path sz offset s)"
  by (simp add: read_def split: prod.splits sum.splits)

lemma ensured_frame:
  "file_size_cache (ensured e path s) = file_size_cache s"
  "attr_cache (ensured e path s) = attr_cache s"
  "readdir_file_cache (ensured e path s) = readdir_file_cache s"
  "readdir_folder_cache (ensured e path s) = readdir_folder_cache s"
  by (simp_all add: ensured_def binary_add_frame)

lemma read_frame:
  "attr_cache (snd (read e now path sz offset s)) = attr_cache s"
  "readdir_file_cache (snd (read e now path sz offset s)) = readdir_file_cache s"
  "readdir_folder_cache (snd (read e now path sz offset s)) = readdir_folder_cache s"
  using snd_read_try [of e now path sz offset s]
  by (auto simp: snd_read ensured_frame content_length_of_frame)

lemmas stub_defs =
  write_def release_def mknod_def unlink_def truncate_def utime_def mkdir_def rmdir_def
  rename_def fsync_def chmod_def chown_def

section \<open>The invariants hold in every state the adapter reaches\<close>

lemma list_all_add:
  "list_all P (entries c) \<Longrightarrow> P (key, v, now) \<Longrightarrow> list_all P (entries (cache_add now c key v))"
  by (simp add: cache_add_def list_all_update)

lemma list_all_mutate:
  "list_all P (entries c) \<Longrightarrow> (\<And>t. P (key, v, t))
   \<Longrightarrow> list_all P (entries (cache_mutate c key v))"
  by (simp add: cache_mutate_def list_all_update split: option.splits)

lemma rows_from_listing:
  assumes "rows_from e name c"
  shows "rows_from e name (fst (snd (listing e now name path c)))"
proof (cases "cache_get now c path")
  case (Some res)
  show ?thesis
  proof (cases res)
    case (Some rows)
    with \<open>cache_get now c path = Some res\<close> assms show ?thesis
      by (simp add: listing_def)
  next
    case None
    with \<open>cache_get now c path = Some res\<close> assms show ?thesis
      unfolding rows_from_def
      by (auto simp: listing_def split: sum.splits intro!: list_all_mutate)
  qed
next
  case None
  have "list_all (\<lambda>(k, res, t). case res of None \<Rightarrow> True
                                  | Some rows \<Rightarrow> view e name k = Inr rows)
          (entries (cache_add now c path None))"
    using assms unfolding rows_from_def by (intro list_all_add) simp_all
  with None show ?thesis
    unfolding rows_from_def
    by (auto simp: listing_def split: sum.splits intro!: list_all_mutate)
qed

lemma listing_ok_file_listing:
  "listing_ok e s \<Longrightarrow> listing_ok e (snd (file_listing e now path s))"
  by (simp add: listing_ok_def file_listing_cache file_listing_frame rows_from_listing)

lemma listing_ok_folder_listing:
  "listing_ok e s \<Longrightarrow> listing_ok e (snd (folder_listing e now path s))"
  by (simp add: listing_ok_def folder_listing_cache folder_listing_frame rows_from_listing)

lemma listing_ok_readdir:
  "listing_ok e s \<Longrightarrow> listing_ok e (snd (readdir e now path offset s))"
  using snd_readdir [OF refl, of e now path offset s]
  by (auto simp: listing_ok_file_listing listing_ok_folder_listing)

lemma listing_ok_cong:
  "readdir_file_cache s' = readdir_file_cache s
   \<Longrightarrow> readdir_folder_cache s' = readdir_folder_cache s
   \<Longrightarrow> listing_ok e s' = listing_ok e s"
  by (simp add: listing_ok_def)

lemma listing_ok_init: "listing_ok e (init_state bin)"
  by (simp add: listing_ok_def rows_from_def init_state_def Cache_def)

lemma reachable_listing_ok: "reachable {e} s \<Longrightarrow> listing_ok e s"
proof (induction rule: reachable.induct)
  case (reach_init bin)
  show ?case by (rule listing_ok_init)
next
  case (reach_readdir s e' now path offset)
  then show ?case by (simp add: listing_ok_readdir)
next
  case (reach_getattr s e' now path)
  then show ?case
    by (simp add: listing_ok_cong [OF getattr_try_frame(2,3)] snd_getattr)
next
  case (reach_open s e' path flags)
  then show ?case by (simp add: listing_ok_cong [OF open_frame(3,4)])
next
  case (reach_read s e' now path sz offset)
  then show ?case by (simp add: listing_ok_cong [OF read_frame(2,3)])
next
  case (reach_statfs s e')
  then show ?case by (simp add: listing_ok_cong [OF statfs_frame(3,4)])
qed (simp_all add: stub_defs)

lemma listing_ttl: "ttl (fst (snd (listing e now name path c))) = ttl c"
  by (simp add: listing_def cache_add_def cache_mutate_def
      split: option.splits sum.splits prod.splits)

lemma listings_expire_cong:
  "readdir_file_cache s' = readdir_file_cache s
   \<Longrightarrow> readdir_folder_cache s' = readdir_folder_cache s
   \<Longrightarrow> listings_expire s' = listings_expire s"
  by (simp add: listings_expire_def)

lemma listings_expire_readdir:
  "listings_expire s \<Longrightarrow> listings_expire (snd (readdir e now path offset s))"
  using snd_readdir [OF refl, of e now path offset s]
  by (auto simp: listings_expire_def file_listing_cache folder_listing_cache
      file_listing_frame folder_listing_frame listing_ttl)

lemma reachable_listings_expire: "reachable E s \<Longrightarrow> listings_expire s"
proof (induction rule: reachable.induct)
  case (reach_init bin)
  show ?case by (simp add: listings_expire_def init_state_def Cache_def)
next
  case (reach_readdir s e now path offset)
  then show ?case by (simp add: listings_expire_readdir)
next
  case (reach_getattr s e now path)
  then show ?case
    by (simp add: listings_expire_cong [OF getattr_try_frame(2,3)] snd_getattr)
next
  case (reach_open s e path flags)
  then show ?case by (simp add: listings_expire_cong [OF open_frame(3,4)])
next
  case (reach_read s e now path sz offset)
  then show ?case by (simp add: listings_expire_cong [OF read_frame(2,3)])
next
  case (reach_statfs s e)
  then show ?case by (simp add: listings_expire_cong [OF statfs_frame(3,4)])
qed (simp_all add: stub_defs)

lemma root_ok_cong: "attr_cache s' = attr_cache s \<Longrightarrow> root_ok s' = root_ok s"
  by (simp add: root_ok_def)

lemma resolve_root:
  "fst (resolve e ''/'' s) = Inr st \<Longrightarrow> st_mode st = S_IFDIR OR 509 \<and> st_nlink st = 2"
  by (auto simp: resolve_def Let_def)

lemma root_ok_getattr: "root_ok s \<Longrightarrow> root_ok (snd (getattr e now path s))"
  using getattr_try_attr_cache [of e now path s] resolve_root [of e s]
  by (auto simp: snd_getattr root_ok_def cache_add_def intro!: list_all_update)

lemma root_ok_init: "root_ok (init_state bin)"
  by (simp add: root_ok_def init_state_def Cache_def)

lemma reachable_root_ok: "reachable E s \<Longrightarrow> root_ok s"
proof (induction rule: reachable.induct)
  case (reach_init bin)
  show ?case by (rule root_ok_init)
next
  case (reach_readdir s e now path offset)
  then show ?case by (simp add: root_ok_cong [OF readdir_frame(2)])
next
  case (reach_getattr s e now path)
  then show ?case by (simp add: root_ok_getattr)
next
  case (reach_open s e path flags)
  then show ?case by (simp add: root_ok_cong [OF open_frame(2)])
next
  case (reach_read s e now path sz offset)
  then show ?case by (simp add: root_ok_cong [OF read_frame(1)])
next
  case (reach_statfs s e)
  then show ?case by (simp add: root_ok_cong [OF statfs_frame(2)])
qed (simp_all add: stub_defs)

lemma sizes_ok_cong:
  "file_size_cache s' = file_size_cache s \<Longrightarrow> binary_cache s' = binary_cache s
   \<Longrightarrow> sizes_ok s' = sizes_ok s"
  by (simp add: sizes_ok_def)

lemma sizes_okD:
  assumes "sizes_ok s" and "(k, n, t) \<in> set (entries (file_size_cache s))"
  shows "\<exists>content. map_of (binary_cache s) k = Some content \<and> n = int (length content)"
proof -
  have "case (k, n, t) of (k, n, t) \<Rightarrow>
          (case map_of (binary_cache s) k of None \<Rightarrow> False
           | Some content \<Rightarrow> n = int (length content))"
    using assms unfolding sizes_ok_def list_all_iff by (rule bspec)
  then show ?thesis
    by (cases "map_of (binary_cache s) k") simp_all
qed

lemma sizes_okI:
  assumes "\<And>k n t. (k, n, t) \<in> set (entries (file_size_cache s))
      \<Longrightarrow> \<exists>content. map_of (binary_cache s) k = Some content \<and> n = int (length content)"
  shows "sizes_ok s"
  unfolding sizes_ok_def list_all_iff
proof
  fix x
  assume x: "x \<in> set (entries (file_size_cache s))"
  obtain k n t where "x = (k, n, t)" by (cases x) auto
  with assms [of k n t] x
  show "case x of (k, n, t) \<Rightarrow>
          (case map_of (binary_cache s) k of None \<Rightarrow> False
           | Some content \<Rightarrow> n = int (length content))"
    by auto
qed

lemma sizes_ok_ensured:
  assumes ok: "sizes_ok s"
  shows "sizes_ok (ensured e path s)"
proof (cases "is_cached s path \<or> (\<exists>x. fetch e path = Inl x)")
  case True
  then have "binary_cache (ensured e path s) = binary_cache s"
    by (auto simp: ensured_def binary_add_def ask_def Let_def)
  then show ?thesis
    using ok sizes_ok_cong [of "ensured e path s" s] by (simp add: ensured_frame)
next
  case False
  then obtain content where f: "fetch e path = Inr content"
    and n: "map_of (binary_cache s) path = None"
    by (cases "fetch e path") (auto simp: is_cached_def)
  have b: "binary_cache (ensured e path s) = AList.update path content (binary_cache s)"
    using f n by (simp add: ensured_def binary_add_def ask_def Let_def is_cached_def)
  show ?thesis
  proof (rule sizes_okI)
    fix k m t
    assume "(k, m, t) \<in> set (entries (file_size_cache (ensured e path s)))"
    then have "(k, m, t) \<in> set (entries (file_size_cache s))"
      by (simp add: ensured_frame)
    then obtain c where c: "map_of (binary_cache s) k = Some c" "m = int (length c)"
      using sizes_okD [OF ok] by blast
    with n have "k \<noteq> path" by auto
    with c show "\<exists>content. map_of (binary_cache (ensured e path s)) k = Some content
                   \<and> m = int (length content)"
      by (simp add: b update_conv')
  qed
qed

lemma sizes_ok_content_length_of:
  "sizes_ok s \<Longrightarrow> binary_get s path = Inr b
   \<Longrightarrow> sizes_ok (snd (content_length_of now path b s))"
  by (auto simp: sizes_ok_def content_length_of_def binary_get_def cache_add_def Let_def
      split: option.splits intro!: list_all_update)

lemma sizes_ok_read: "sizes_ok s \<Longrightarrow> sizes_ok (snd (read e now path sz offset s))"
  using snd_read_try [of e now path sz offset s]
  by (auto simp: snd_read sizes_ok_ensured sizes_ok_content_length_of)

lemma sizes_ok_init: "sizes_ok (init_state bin)"
  by (simp add: sizes_ok_def init_state_def Cache_def)

lemma reachable_sizes_ok: "reachable E s \<Longrightarrow> sizes_ok s"
proof (induction rule: reachable.induct)
  case (reach_init bin)
  show ?case by (rule sizes_ok_init)
next
  case (reach_readdir s e now path offset)
  then show ?case by (simp add: sizes_ok_cong [OF readdir_frame(1,3)])
next
  case (reach_getattr s e now path)
  then show ?case by (simp add: sizes_ok_cong [OF getattr_try_frame(1,4)] snd_getattr)
next
  case (reach_open s e path flags)
  then show ?case by (simp add: sizes_ok_cong [OF open_frame(1,5)])
next
  case (reach_read s e now path sz offset)
  then show ?case by (simp add: sizes_ok_read)
next
  case (reach_statfs s e)
  then show ?case by (simp add: sizes_ok_cong [OF statfs_frame(1,5)])
qed (simp_all add: stub_defs)

section \<open>What each callback returns\<close>

lemma fst_listing:
  "fst (listing e now name path c) = listing_in_effect now c (view e name path) path"
  by (simp add: listing_def listing_in_effect_def split: option.splits sum.splits)

lemma fst_file_listing:
  "fst (file_listing e now path s)
     = listing_in_effect now (readdir_file_cache s) (view e ''file/byFolder'' path) path"
  using fst_listing [of e now "''file/byFolder''" path "readdir_file_cache s"]
  by (auto simp: file_listing_def split: prod.splits)

lemma fst_folder_listing:
  "fst (folder_listing e now path s)
     = listing_in_effect now (readdir_folder_cache s) (view e ''folder/byFolder'' path) path"
  using fst_listing [of e now "''folder/byFolder''" path "readdir_folder_cache s"]
  by (auto simp: folder_listing_def split: prod.splits)

lemma fst_readdir:
  "fst (readdir e now path offset s)
     = yielded (fst (file_listing e now (normalize_path path) s))
         (fst (folder_listing e now (normalize_path path)
                (snd (file_listing e now (normalize_path path) s))))"
  by (auto simp: readdir_def yielded_def Let_def split: prod.splits sum.splits option.splits)

lemma fst_resolve: "fst (resolve e path s') = fst (resolve e path s)"
  by (simp add: resolve_def Let_def split: sum.splits option.splits)

lemma fst_getattr_try:
  "fst (getattr_try e now path s)
     = (case cache_get now (attr_cache s) path of
          Some st \<Rightarrow> Inr st
        | None \<Rightarrow> fst (resolve e path s))"
  by (simp add: getattr_try_def split: option.splits prod.splits sum.splits)

lemma fst_getattr:
  "fst (getattr e now path s)
     = (case fst (getattr_try e now path s) of
          Inr st \<Rightarrow> Inr (Obj st)
        | Inl x \<Rightarrow> Inr (Code (- ENOENT)))"
  by (simp add: getattr_def split: prod.splits sum.splits)

lemma fst_content_length_of:
  "fst (content_length_of now path b s)
     = (case cache_get now (file_size_cache s) path of
          Some n \<Rightarrow> n
        | None \<Rightarrow> int (length b))"
  by (simp add: content_length_of_def Let_def split: option.splits)

lemma fst_read_try:
  "fst (read_try e now path sz offset s)
     = (let p = normalize_path path in
        if \<not> is_cached s p \<and> (\<exists>x. fetch e p = Inl x) then Inl (projl (fetch e p))
        else
          (case binary_get (ensured e p s) p of
             Inl x \<Rightarrow> Inl x
           | Inr b \<Rightarrow>
               (let content_length = fst (content_length_of now p b (ensured e p s)) in
                if offset < content_length then
                  seek_read b offset
                    (if offset + sz > content_length then content_length - offset else sz)
                else Inr [])))"
  by (auto simp: read_try_def ensured_def binary_add_def Let_def
      split: prod.splits sum.splits)

lemma fst_read:
  "fst (read e now path sz offset s)
     = (case fst (read_try e now path sz offset s) of
          Inr buf \<Rightarrow> Inr (Obj buf)
        | Inl x \<Rightarrow> Inr (Code (- ENOENT)))"
  by (simp add: read_def split: prod.splits sum.splits)

section \<open>Directory listings\<close>

lemma direntries_named:
  "list_all named res \<Longrightarrow> direntries res = (map entry_of res, None)"
  by (induction res) (auto simp: named_def entry_of_def split: option.splits pyval.splits)

lemma readdir_in_effect:
  assumes "listing_in_effect now (readdir_file_cache s)
             (view e ''file/byFolder'' (normalize_path path)) (normalize_path path) = Inr files"
    and "listing_in_effect now (readdir_folder_cache s)
             (view e ''folder/byFolder'' (normalize_path path)) (normalize_path path) = Inr folders"
    and "list_all named files" and "list_all named folders"
  shows "fst (readdir e now path offset s)
           = (Direntry ''.'' # Direntry ''..'' # map entry_of files @ map entry_of folders, None)"
  using assms
  by (simp add: fst_readdir fst_file_listing fst_folder_listing file_listing_frame
      yielded_def direntries_named)

lemma in_effect_same_store:
  assumes "rows_from e name c" and "view e name key = Inr rows"
  shows "listing_in_effect now c (view e name key) key = Inr rows"
proof (cases "cache_get now c key")
  case None
  with assms(2) show ?thesis by (simp add: listing_in_effect_def)
next
  case (Some res)
  show ?thesis
  proof (cases res)
    case None
    with Some assms(2) show ?thesis by (simp add: listing_in_effect_def)
  next
    case (Some cached)
    obtain t where "(key, Some cached, t) \<in> set (entries c)"
      using cache_get_entry [of now c key res] \<open>cache_get now c key = Some res\<close> Some by auto
    with assms(1) have "view e name key = Inr cached"
      by (auto simp: rows_from_def list_all_iff)
    with assms(2) Some \<open>cache_get now c key = Some res\<close> show ?thesis
      by (simp add: listing_in_effect_def)
  qed
qed

lemma no_recent_miss:
  assumes "ttl c = Some ATTR_VALIDITY_PERIOD" and "no_recent now c key"
  shows "cache_get now c key = None"
proof (cases "map_of (entries c) key")
  case None
  then show ?thesis by (simp add: cache_get_def)
next
  case (Some a)
  obtain v t where a: "a = (v, t)" by (cases a)
  with Some have "(key, v, t) \<in> set (entries c)"
    using map_of_SomeD [of "entries c" key "(v, t)"] by simp
  with assms(2) have "ATTR_VALIDITY_PERIOD \<le> now - t"
    by (auto simp: no_recent_def list_all_iff)
  with Some a assms(1) show ?thesis by (simp add: cache_get_def)
qed

lemma in_effect_expired:
  assumes "ttl c = Some ATTR_VALIDITY_PERIOD" and "no_recent now c key"
  shows "listing_in_effect now c answer key = answer"
  using no_recent_miss [OF assms] by (simp add: listing_in_effect_def)

lemma readdir_listing:
  assumes ok: "listing_ok e s"
    and files: "view e ''file/byFolder'' (normalize_path path) = Inr files"
    and folders: "view e ''folder/byFolder'' (normalize_path path) = Inr folders"
    and names: "list_all named files" "list_all named folders"
  shows "fst (readdir e now path offset s)
           = (Direntry ''.'' # Direntry ''..'' # map entry_of files @ map entry_of folders, None)"
  using ok by (intro readdir_in_effect in_effect_same_store files folders names)
    (simp_all add: listing_ok_def)

lemma readdir_expired:
  assumes "listings_expire s"
    and "no_recent now (readdir_file_cache s) (normalize_path path)"
    and "no_recent now (readdir_folder_cache s) (normalize_path path)"
    and files: "view e ''file/byFolder'' (normalize_path path) = Inr files"
    and folders: "view e ''folder/byFolder'' (normalize_path path) = Inr folders"
    and names: "list_all named files" "list_all named folders"
  shows "fst (readdir e now path offset s)
           = (Direntry ''.'' # Direntry ''..'' # map entry_of files @ map entry_of folders, None)"
proof (rule readdir_in_effect [OF _ _ names])
  show "listing_in_effect now (readdir_file_cache s)
          (view e ''file/byFolder'' (normalize_path path)) (normalize_path path) = Inr files"
    using assms(1,2) files by (simp add: in_effect_expired listings_expire_def)
  show "listing_in_effect now (readdir_folder_cache s)
          (view e ''folder/byFolder'' (normalize_path path)) (normalize_path path) = Inr folders"
    using assms(1,3) folders by (simp add: in_effect_expired listings_expire_def)
qed

lemma readdir_head:
  "\<exists>rest. fst (fst (readdir e now path offset s)) = Direntry ''.'' # Direntry ''..'' # rest"
  by (simp add: readdir_def Let_def split: prod.splits sum.splits option.splits)

section \<open>The keys of the caches\<close>

lemma cache_keys_add: "cache_keys (cache_add now c key v) = insert key (cache_keys c)"
  by (simp add: cache_keys_def cache_add_def dom_update)

lemma cache_keys_mutate: "cache_keys (cache_mutate c key v) \<subseteq> insert key (cache_keys c)"
  by (auto simp: cache_keys_def cache_mutate_def dom_update split: option.splits)

lemma listing_keys:
  "cache_keys (fst (snd (listing e now name path c))) \<subseteq> insert path (cache_keys c)"
  using cache_keys_mutate [of c path] cache_keys_mutate [of "cache_add now c path None" path]
  by (auto simp: listing_def cache_keys_add split: option.splits sum.splits)

lemma file_listing_keys:
  "cache_keys (readdir_file_cache (snd (file_listing e now path s)))
     \<subseteq> insert path (cache_keys (readdir_file_cache s))"
  by (simp add: file_listing_cache listing_keys)

lemma folder_listing_keys:
  "cache_keys (readdir_folder_cache (snd (folder_listing e now path s)))
     \<subseteq> insert path (cache_keys (readdir_folder_cache s))"
  by (simp add: folder_listing_cache listing_keys)

lemma readdir_file_keys:
  "cache_keys (readdir_file_cache (snd (readdir e now path offset s)))
     \<subseteq> insert (normalize_path path) (cache_keys (readdir_file_cache s))"
  using snd_readdir [OF refl, of e now path offset s]
    file_listing_keys [of e now "normalize_path path" s]
  by (auto simp: folder_listing_frame)

lemma readdir_folder_keys:
  "cache_keys (readdir_folder_cache (snd (readdir e now path offset s)))
     \<subseteq> insert (normalize_path path) (cache_keys (readdir_folder_cache s))"
  using snd_readdir [OF refl, of e now path offset s]
    folder_listing_keys [of e now "normalize_path path" "snd (file_listing e now (normalize_path path) s)"]
  by (auto simp: file_listing_frame)

lemma content_length_of_keys:
  "cache_keys (file_size_cache (snd (content_length_of now path b s)))
     \<subseteq> insert path (cache_keys (file_size_cache s))"
  by (auto simp: content_length_of_def Let_def cache_keys_add split: option.splits)

lemma read_keys:
  "cache_keys (file_size_cache (snd (read e now path sz offset s)))
     \<subseteq> insert (normalize_path path) (cache_keys (file_size_cache s))"
proof -
  let ?p = "normalize_path path"
  from snd_read_try [of e now path sz offset s]
  show ?thesis
  proof
    assume "snd (read_try e now path sz offset s) = ensured e ?p s"
    then show ?thesis by (auto simp: snd_read ensured_frame)
  next
    assume "\<exists>b. binary_get (ensured e ?p s) ?p = Inr b
          \<and> snd (read_try e now path sz offset s)
              = snd (content_length_of now ?p b (ensured e ?p s))"
    then obtain b where "snd (read_try e now path sz offset s)
              = snd (content_length_of now ?p b (ensured e ?p s))" by blast
    then show ?thesis
      using content_length_of_keys [of now ?p b "ensured e ?p s"]
      by (simp add: snd_read ensured_frame)
  qed
qed

lemma getattr_keys:
  "cache_keys (attr_cache (snd (getattr e now path s)))
     \<subseteq> insert path (cache_keys (attr_cache s))"
  using getattr_try_attr_cache [of e now path s]
  by (auto simp: snd_getattr cache_keys_add)

lemma normalized_keys_iff:
  "normalized_keys c \<longleftrightarrow> (\<forall>k \<in> cache_keys c. normalize_path k = k)"
  by (auto simp: normalized_keys_def cache_keys_def list_all_iff)

lemma normalized_keys_subset:
  assumes "normalized_keys c" and "cache_keys c' \<subseteq> insert (normalize_path p) (cache_keys c)"
  shows "normalized_keys c'"
  using assms normalize_path_fixed [of p] by (auto simp: normalized_keys_iff)

lemma normalized_keys_init:
  "normalized_keys (file_size_cache (init_state bin))"
  "normalized_keys (readdir_file_cache (init_state bin))"
  "normalized_keys (readdir_folder_cache (init_state bin))"
  by (simp_all add: normalized_keys_def init_state_def Cache_def)

lemma reachable_normalized_keys:
  "reachable E s \<Longrightarrow>
     normalized_keys (file_size_cache s) \<and> normalized_keys (readdir_file_cache s)
     \<and> normalized_keys (readdir_folder_cache s)"
proof (induction rule: reachable.induct)
  case (reach_init bin)
  show ?case by (simp add: normalized_keys_init)
next
  case (reach_readdir s e now path offset)
  then show ?case
    using normalized_keys_subset [OF _ readdir_file_keys [of e now path offset s]]
      normalized_keys_subset [OF _ readdir_folder_keys [of e now path offset s]]
    by (simp add: readdir_frame)
next
  case (reach_getattr s e now path)
  then show ?case by (simp add: snd_getattr getattr_try_frame)
next
  case (reach_open s e path flags)
  then show ?case by (simp add: open_frame)
next
  case (reach_read s e now path sz offset)
  then show ?case
    using normalized_keys_subset [OF _ read_keys [of e now path sz offset s]]
    by (simp add: read_frame)
next
  case (reach_statfs s e)
  then show ?case by (simp add: statfs_frame)
qed (simp_all add: stub_defs)

section \<open>A lookup reads one key\<close>

lemma readdir_lookup:
  assumes "cache_get now (readdir_file_cache s') (normalize_path path)
             = cache_get now (readdir_file_cache s) (normalize_path path)"
    and "cache_get now (readdir_folder_cache s') (normalize_path path)
             = cache_get now (readdir_folder_cache s) (normalize_path path)"
  shows "fst (readdir e now path offset s') = fst (readdir e now path offset s)"
  using assms
  by (simp add: fst_readdir fst_file_listing fst_folder_listing file_listing_frame
      listing_in_effect_def)

lemma getattr_lookup:
  assumes "cache_get now (attr_cache s') path = cache_get now (attr_cache s) path"
  shows "fst (getattr e now path s') = fst (getattr e now path s)"
proof -
  have "fst (getattr_try e now path s') = fst (getattr_try e now path s)"
    using assms fst_resolve [of e path s' s]
    by (simp add: fst_getattr_try split: option.splits)
  then show ?thesis by (simp only: fst_getattr)
qed

lemma ensured_binary:
  "binary_cache s' = binary_cache s
   \<Longrightarrow> binary_cache (ensured e path s') = binary_cache (ensured e path s)"
  by (simp add: ensured_def is_cached_def binary_add_def ask_def Let_def split: sum.splits)

lemma read_lookup:
  assumes "binary_cache s' = binary_cache s"
    and "cache_get now (file_size_cache s') (normalize_path path)
           = cache_get now (file_size_cache s) (normalize_path path)"
  shows "fst (read e now path sz offset s') = fst (read e now path sz offset s)"
proof -
  have "is_cached s' (normalize_path path) = is_cached s (normalize_path path)"
    using assms(1) by (simp add: is_cached_def)
  moreover have "binary_get (ensured e (normalize_path path) s') (normalize_path path)
      = binary_get (ensured e (normalize_path path) s) (normalize_path path)"
    using ensured_binary [OF assms(1)] by (simp add: binary_get_def)
  ultimately have "fst (read_try e now path sz offset s') = fst (read_try e now path sz offset s)"
    using assms(2)
    by (simp add: fst_read_try fst_content_length_of ensured_frame Let_def
        split: sum.splits option.splits)
  then show ?thesis by (simp only: fst_read)
qed

section \<open>Paths with no record\<close>

lemma getattr_no_record:
  assumes "path \<noteq> ''/''" and "cache_get now (attr_cache s) path = None"
    and "get_folder e path = Inr None" and "get_file e path = Inr None"
  shows "fst (getattr e now path s) = Inr (Obj (CouchStat_init e))"
  using assms by (simp add: fst_getattr fst_getattr_try resolve_def Let_def)

lemma open_no_record:
  assumes "view e ''file/byFullPath'' (normalize_path path) = Inr []"
  shows "fst (open e path flags s) = Inr (- ENOENT)"
  using assms by (simp add: open_def open_try_def Let_def)

text \<open>
  C1, on the code. For a path with no Folder and no File record \<^verbatim>\<open>open\<close> returns
  \<open>- ENOENT\<close>, but \<^verbatim>\<open>getattr\<close> does not: on a fresh adapter over a store without any
  record, \<^verbatim>\<open>getattr("/missing")\<close> returns the default descriptor (mode 0, link count 0,
  size 4096) and caches it, so that a second call within the validity period returns it
  again.
\<close>

theorem getattr_missing_path:
  "fst (getattr empty_store 0 ''/missing'' (init_state [])) = Inr (Obj (CouchStat_init empty_store))
   \<and> st_mode (CouchStat_init empty_store) = 0
   \<and> st_nlink (CouchStat_init empty_store) = 0
   \<and> st_size (CouchStat_init empty_store) = PInt 4096
   \<and> fst (getattr empty_store 0 ''/missing'' (init_state [])) \<noteq> Inr (Code (- ENOENT))
   \<and> cache_get 5 (attr_cache (snd (getattr empty_store 0 ''/missing'' (init_state [])))) ''/missing''
       = Some (CouchStat_init empty_store)
   \<and> fst (open empty_store ''/missing'' 0 (init_state [])) = Inr (- ENOENT)"
proof -
  have g: "fst (getattr empty_store 0 ''/missing'' (init_state []))
             = Inr (Obj (CouchStat_init empty_store))"
    by (rule getattr_no_record)
      (simp_all add: cache_get_def init_state_def Cache_def empty_store_def)
  have c: "cache_get 5 (attr_cache (snd (getattr empty_store 0 ''/missing'' (init_state []))))
             ''/missing'' = Some (CouchStat_init empty_store)"
    by (simp add: getattr_def getattr_try_def resolve_def cache_get_def cache_add_def
        init_state_def Cache_def ask_def empty_store_def ATTR_VALIDITY_PERIOD_def Let_def)
  have o: "fst (open empty_store ''/missing'' 0 (init_state [])) = Inr (- ENOENT)"
    by (rule open_no_record) (simp add: empty_store_def)
  show ?thesis
    using g c o by (simp add: CouchStat_init_def)
qed

section \<open>The disabled write path\<close>

text \<open>
  C2, on the code. For every input, \<^verbatim>\<open>write\<close>, \<^verbatim>\<open>mknod\<close>, \<^verbatim>\<open>unlink\<close>, \<^verbatim>\<open>mkdir\<close>,
  \<^verbatim>\<open>rmdir\<close> and \<^verbatim>\<open>rename\<close> leave the state as it is (caches, local copies, and no
  request to the store), and return \<^verbatim>\<open>errno.EACCES\<close> itself: the positive code 13, not
  the negative code \<open>- EACCES\<close>.
\<close>

theorem write_path_returns_positive_EACCES:
  "write path buf offset s = (Inr EACCES, s)
   \<and> mknod path mode dev s = (Inr EACCES, s)
   \<and> unlink path s = (Inr EACCES, s)
   \<and> mkdir path mode s = (Inr EACCES, s)
   \<and> rmdir path s = (Inr EACCES, s)
   \<and> rename path pathto root s = (Inr EACCES, s)
   \<and> EACCES = 13
   \<and> EACCES \<noteq> - EACCES"
  by (simp add: write_def mknod_def unlink_def mkdir_def rmdir_def rename_def EACCES_def)

text \<open>
  C8, as amended. \<^verbatim>\<open>truncate\<close> is a stub that succeeds: for every path and size it
  returns 0 and leaves the state as it is.
\<close>

theorem truncate_returns_zero: "truncate path sz s = (Inr 0, s)"
  by (simp add: truncate_def)

text \<open>
  C8 as stated fails: \<^verbatim>\<open>truncate("/docs/a.txt", 0)\<close> returns 0, which is neither
  \<open>- EACCES\<close> nor \<open>EACCES\<close>.
\<close>

theorem truncate_counterexample:
  "fst (truncate ''/docs/a.txt'' 0 (init_state [])) = Inr 0
   \<and> fst (truncate ''/docs/a.txt'' 0 (init_state [])) \<noteq> Inr (- EACCES)
   \<and> fst (truncate ''/docs/a.txt'' 0 (init_state [])) \<noteq> Inr EACCES"
  by (simp add: truncate_def EACCES_def)

section \<open>Reading a materialized file\<close>

lemma content_length_of_fst:
  assumes "sizes_ok s" and "map_of (binary_cache s) path = Some content"
  shows "fst (content_length_of now path content s) = int (length content)"
proof (cases "cache_get now (file_size_cache s) path")
  case None
  then show ?thesis by (simp add: content_length_of_def Let_def)
next
  case (Some n)
  obtain t where "(path, n, t) \<in> set (entries (file_size_cache s))"
    using cache_get_entry [OF Some] by auto
  from sizes_okD [OF assms(1) this] assms(2) have "n = int (length content)" by simp
  with Some show ?thesis by (simp add: content_length_of_def)
qed

lemma read_try_cached:
  assumes "sizes_ok s" and "map_of (binary_cache s) (normalize_path path) = Some content"
  shows "fst (read_try e now path sz offset s)
           = (if offset < int (length content)
              then seek_read content offset
                     (if offset + sz > int (length content)
                      then int (length content) - offset else sz)
              else Inr [])"
proof -
  define p where "p = normalize_path path"
  obtain s1 where c: "content_length_of now p content s = (int (length content), s1)"
    using content_length_of_fst [OF assms(1), of p content now] assms(2)
    by (cases "content_length_of now p content s") (simp add: p_def)
  show ?thesis
    using assms(2) c
    by (simp add: read_try_def p_def [symmetric] is_cached_def binary_get_def Let_def)
qed

text \<open>
  C3. Let the content of a path be materialized, of length \<open>L\<close>, in a state the adapter
  reaches. Then \<^verbatim>\<open>read(path, size, offset)\<close>, for an offset and a size that are not
  negative, returns the bytes of the content from \<open>offset\<close> up to \<open>min (offset + size) L\<close>
  and no others: nothing when \<open>offset \<ge> L\<close>, exactly \<open>L - offset\<close> bytes when
  \<open>offset < L\<close> and \<open>offset + size > L\<close>, and exactly \<open>size\<close> bytes otherwise.
\<close>

theorem read_clamped:
  assumes "reachable E s"
    and "map_of (binary_cache s) (normalize_path path) = Some content"
    and "0 \<le> offset" and "0 \<le> sz"
  shows "\<exists>buf. fst (read e now path sz offset s) = Inr (Obj buf)
           \<and> buf = take (nat (min (offset + sz) (int (length content)) - offset))
                      (drop (nat offset) content)
           \<and> (int (length content) \<le> offset \<longrightarrow> buf = [])
           \<and> (offset < int (length content) \<and> int (length content) < offset + sz
                \<longrightarrow> int (length buf) = int (length content) - offset)
           \<and> (offset < int (length content) \<and> offset + sz \<le> int (length content)
                \<longrightarrow> int (length buf) = sz)"
proof -
  have "fst (read_try e now path sz offset s)
          = Inr (take (nat (min (offset + sz) (int (length content)) - offset))
                   (drop (nat offset) content))"
    using assms(3,4)
    by (simp add: read_try_cached [OF reachable_sizes_ok [OF assms(1)] assms(2)]
        seek_read_def Let_def min_def)
  then show ?thesis
    using assms(3,4) by (auto simp: fst_read min_def)
qed

lemma first_read_state:
  "snd (read docs_store 0 ''/docs/a.txt'' 0 0 (init_state []))
     = \<lparr>file_size_cache = \<lparr>ttl = None, entries = [(''/docs/a.txt'', 42, 0)]\<rparr>,
        attr_cache = Cache (Some ATTR_VALIDITY_PERIOD),
        readdir_file_cache = Cache (Some ATTR_VALIDITY_PERIOD),
        readdir_folder_cache = Cache (Some ATTR_VALIDITY_PERIOD),
        binary_cache = [(''/docs/a.txt'', replicate 42 (CHR ''x''))],
        requests = [Fetch ''/docs/a.txt'']\<rparr>"
  by (simp add: read_def read_try_def is_cached_def binary_add_def binary_get_def
      content_length_of_def cache_get_def cache_add_def seek_read_def ask_def
      init_state_def Cache_def docs_store_def normalize_path_def Let_def)

text \<open>
  The scenario's read, in the state a first read of the file leaves: 100 bytes asked at
  offset 40 of the 42 bytes of \<^verbatim>\<open>/docs/a.txt\<close> give 2 bytes.
\<close>

theorem read_clamped_witness:
  "reachable UNIV (snd (read docs_store 0 ''/docs/a.txt'' 0 0 (init_state [])))
   \<and> map_of (binary_cache (snd (read docs_store 0 ''/docs/a.txt'' 0 0 (init_state []))))
       (normalize_path ''/docs/a.txt'') = Some (replicate 42 (CHR ''x''))
   \<and> fst (read docs_store 1 ''/docs/a.txt'' 100 40
            (snd (read docs_store 0 ''/docs/a.txt'' 0 0 (init_state [])))) = Inr (Obj ''xx'')"
proof -
  let ?s = "snd (read docs_store 0 ''/docs/a.txt'' 0 0 (init_state []))"
  have r: "reachable UNIV ?s"
    by (rule reach_read [OF reach_init]) simp
  have m: "map_of (binary_cache ?s) (normalize_path ''/docs/a.txt'')
             = Some (replicate 42 (CHR ''x''))"
    by (simp add: first_read_state normalize_path_def)
  from read_clamped [OF r m, of 40 100 docs_store 1] r m
  show ?thesis by (simp add: numeral_eq_Suc)
qed

section \<open>Failures of the backing store\<close>

lemma getattr_collapses:
  "(\<exists>st. fst (getattr e now path s) = Inr (Obj st))
   \<or> fst (getattr e now path s) = Inr (Code (- ENOENT))"
  by (cases "fst (getattr_try e now path s)") (simp_all add: fst_getattr)

lemma getattr_store_failure:
  "fst (getattr_try e now path s) = Inl x
   \<Longrightarrow> fst (getattr e now path s) = Inr (Code (- ENOENT))"
  by (simp add: fst_getattr)

lemma open_store_failure:
  "view e ''file/byFullPath'' (normalize_path path) = Inl x
   \<Longrightarrow> fst (open e path flags s) = Inr (- ENOENT)"
  by (simp add: open_def open_try_def Let_def)

lemma read_store_failure:
  "fst (read_try e now path sz offset s) = Inl x
   \<Longrightarrow> fst (read e now path sz offset s) = Inr (Code (- ENOENT))"
  by (simp add: fst_read)

lemma statfs_store_failure:
  "get_disk_space e = Inl x \<Longrightarrow> fst (statfs e s) = Inl x"
  by (simp add: statfs_def Let_def)

lemma readdir_store_failure:
  "cache_get now (readdir_file_cache s) (normalize_path path) = None
   \<Longrightarrow> view e ''file/byFolder'' (normalize_path path) = Inl x
   \<Longrightarrow> fst (readdir e now path offset s) = ([Direntry ''.'', Direntry ''..''], Some x)"
  by (simp add: fst_readdir fst_file_listing listing_in_effect_def yielded_def)

text \<open>
  C4, on the code. Over a store whose every call raises, \<^verbatim>\<open>getattr\<close>, \<^verbatim>\<open>open\<close> and
  \<^verbatim>\<open>read\<close> catch the exception and return \<open>- ENOENT\<close>; \<^verbatim>\<open>statfs\<close> and \<^verbatim>\<open>readdir\<close>
  have no handler: the exception leaves \<^verbatim>\<open>statfs\<close>, and it leaves \<^verbatim>\<open>readdir\<close> after
  the two conventional entries.
\<close>

theorem store_failure_escapes:
  "fst (statfs failing_store (init_state [])) = Inl (StoreError ''down'')
   \<and> fst (readdir failing_store 0 ''/docs'' 0 (init_state []))
       = ([Direntry ''.'', Direntry ''..''], Some (StoreError ''down''))
   \<and> fst (getattr failing_store 0 ''/docs'' (init_state [])) = Inr (Code (- ENOENT))
   \<and> fst (open failing_store ''/docs/a.txt'' 0 (init_state [])) = Inr (- ENOENT)
   \<and> fst (read failing_store 0 ''/docs/a.txt'' 100 0 (init_state [])) = Inr (Code (- ENOENT))"
proof -
  have a: "fst (statfs failing_store (init_state [])) = Inl (StoreError ''down'')"
    by (rule statfs_store_failure) (simp add: failing_store_def)
  have b: "fst (readdir failing_store 0 ''/docs'' 0 (init_state []))
       = ([Direntry ''.'', Direntry ''..''], Some (StoreError ''down''))"
    by (rule readdir_store_failure)
      (simp_all add: cache_get_def init_state_def Cache_def failing_store_def)
  have c: "fst (getattr failing_store 0 ''/docs'' (init_state [])) = Inr (Code (- ENOENT))"
    by (simp add: fst_getattr fst_getattr_try resolve_def cache_get_def init_state_def
        Cache_def failing_store_def Let_def)
  have d: "fst (open failing_store ''/docs/a.txt'' 0 (init_state [])) = Inr (- ENOENT)"
    by (rule open_store_failure [of _ _ "StoreError ''down''"]) (simp add: failing_store_def)
  have e: "fst (read failing_store 0 ''/docs/a.txt'' 100 0 (init_state []))
             = Inr (Code (- ENOENT))"
    by (simp add: fst_read fst_read_try is_cached_def init_state_def failing_store_def
        normalize_path_def Let_def)
  show ?thesis using a b c d e by simp
qed

section \<open>The root path\<close>

lemma getattr_root:
  assumes "root_ok s"
  shows "\<exists>st. fst (getattr e now ''/'' s) = Inr (Obj st)
            \<and> st_mode st = S_IFDIR OR 509 \<and> st_nlink st = 2
            \<and> requests (snd (getattr e now ''/'' s)) = requests s"
proof (cases "cache_get now (attr_cache s) ''/''")
  case None
  then show ?thesis
    by (simp add: getattr_def getattr_try_def resolve_def Let_def)
next
  case (Some st)
  obtain t where "(''/'', st, t) \<in> set (entries (attr_cache s))"
    using cache_get_entry [OF Some] by auto
  with assms have "st_mode st = S_IFDIR OR 509 \<and> st_nlink st = 2"
    by (auto simp: root_ok_def list_all_iff)
  with Some show ?thesis
    by (simp add: getattr_def getattr_try_def)
qed

lemma directory_mode: "(S_IFDIR OR 509) AND S_IFMT = S_IFDIR"
  by (simp add: S_IFDIR_def S_IFMT_def)

text \<open>
  C5. In every state the adapter reaches, whatever the backing store was at each earlier
  call and whatever it is now, \<^verbatim>\<open>getattr("/")\<close> returns a descriptor whose file-type bits
  are those of a directory and whose link count is 2, and sends no request to the store.
\<close>

theorem getattr_root_is_directory:
  assumes "reachable E s"
  shows "\<exists>st. fst (getattr e now ''/'' s) = Inr (Obj st)
            \<and> st_mode st AND S_IFMT = S_IFDIR \<and> st_nlink st = 2
            \<and> requests (snd (getattr e now ''/'' s)) = requests s"
proof -
  from getattr_root [OF reachable_root_ok [OF assms], of e now]
  obtain st where "fst (getattr e now ''/'' s) = Inr (Obj st)"
    "st_mode st = S_IFDIR OR 509" "st_nlink st = 2"
    "requests (snd (getattr e now ''/'' s)) = requests s"
    by blast
  then show ?thesis by (simp add: directory_mode)
qed

text \<open>
  The root asked of a store that is down, three seconds after it was asked of the
  scenario's store.
\<close>

theorem getattr_root_is_directory_witness:
  "reachable UNIV (snd (getattr docs_store 0 ''/'' (init_state [])))
   \<and> (\<exists>st. fst (getattr failing_store 3 ''/'' (snd (getattr docs_store 0 ''/'' (init_state []))))
               = Inr (Obj st)
          \<and> st_mode st AND S_IFMT = S_IFDIR \<and> st_nlink st = 2
          \<and> requests (snd (getattr failing_store 3 ''/''
                               (snd (getattr docs_store 0 ''/'' (init_state [])))))
              = requests (snd (getattr docs_store 0 ''/'' (init_state []))))"
proof -
  have r: "reachable UNIV (snd (getattr docs_store 0 ''/'' (init_state [])))"
    by (rule reach_getattr [OF reach_init]) simp
  show ?thesis
    using r getattr_root_is_directory [OF r, of failing_store 3] by simp
qed

section \<open>The order of a directory listing\<close>

lemma normalize_docs:
  "normalize_path ''/docs'' = ''/docs''"
  "normalize_path ''//docs/'' = ''/docs''"
  "normalize_path ''/docs/'' = ''/docs''"
  "normalize_path ''/missing'' = ''/missing''"
  by (simp_all add: normalize_path_def)

text \<open>
  C6, as amended. For every path, \<^verbatim>\<open>readdir(path)\<close> yields \<^verbatim>\<open>"."\<close>, then \<^verbatim>\<open>".."\<close>,
  then the names of the file listing in effect, then the names of the folder listing in
  effect, and ends without an exception, when both listings are had without an exception
  and their rows carry names. The listing in effect of a tier is the one cached under the
  normalized path while it is valid, if its rows are fetched, and else what the store
  answers at the call. So the entries are the names of all the File and all the Folder
  records whose parent is the path, as the store has them at the call, in every state the
  adapter reaches in which neither listing cache holds an entry for the normalized path
  younger than the validity period of 10 seconds, whatever the store was before; and in
  every state reached while serving calls against the store of the call.
\<close>

theorem readdir_order:
  "(listing_in_effect now (readdir_file_cache s)
        (view e ''file/byFolder'' (normalize_path path)) (normalize_path path) = Inr files
    \<and> listing_in_effect now (readdir_folder_cache s)
        (view e ''folder/byFolder'' (normalize_path path)) (normalize_path path) = Inr folders
    \<and> list_all named files \<and> list_all named folders
    \<longrightarrow> fst (readdir e now path offset s)
          = (Direntry ''.'' # Direntry ''..'' # map entry_of files @ map entry_of folders, None))
   \<and> (reachable E s
        \<and> no_recent now (readdir_file_cache s) (normalize_path path)
        \<and> no_recent now (readdir_folder_cache s) (normalize_path path)
        \<and> view e ''file/byFolder'' (normalize_path path) = Inr files
        \<and> view e ''folder/byFolder'' (normalize_path path) = Inr folders
        \<and> list_all named files \<and> list_all named folders
      \<longrightarrow> fst (readdir e now path offset s)
            = (Direntry ''.'' # Direntry ''..'' # map entry_of files @ map entry_of folders, None))
   \<and> (reachable {e} s
        \<and> view e ''file/byFolder'' (normalize_path path) = Inr files
        \<and> view e ''folder/byFolder'' (normalize_path path) = Inr folders
        \<and> list_all named files \<and> list_all named folders
      \<longrightarrow> fst (readdir e now path offset s)
            = (Direntry ''.'' # Direntry ''..'' # map entry_of files @ map entry_of folders, None))"
proof (intro conjI impI)
  assume "listing_in_effect now (readdir_file_cache s)
        (view e ''file/byFolder'' (normalize_path path)) (normalize_path path) = Inr files
    \<and> listing_in_effect now (readdir_folder_cache s)
        (view e ''folder/byFolder'' (normalize_path path)) (normalize_path path) = Inr folders
    \<and> list_all named files \<and> list_all named folders"
  then show "fst (readdir e now path offset s)
          = (Direntry ''.'' # Direntry ''..'' # map entry_of files @ map entry_of folders, None)"
    by (intro readdir_in_effect) simp_all
next
  assume a: "reachable E s
        \<and> no_recent now (readdir_file_cache s) (normalize_path path)
        \<and> no_recent now (readdir_folder_cache s) (normalize_path path)
        \<and> view e ''file/byFolder'' (normalize_path path) = Inr files
        \<and> view e ''folder/byFolder'' (normalize_path path) = Inr folders
        \<and> list_all named files \<and> list_all named folders"
  then have "listings_expire s" using reachable_listings_expire [of E s] by blast
  with a show "fst (readdir e now path offset s)
          = (Direntry ''.'' # Direntry ''..'' # map entry_of files @ map entry_of folders, None)"
    by (intro readdir_expired) simp_all
next
  assume a: "reachable {e} s
        \<and> view e ''file/byFolder'' (normalize_path path) = Inr files
        \<and> view e ''folder/byFolder'' (normalize_path path) = Inr folders
        \<and> list_all named files \<and> list_all named folders"
  then have "listing_ok e s" by (simp add: reachable_listing_ok)
  with a show "fst (readdir e now path offset s)
          = (Direntry ''.'' # Direntry ''..'' # map entry_of files @ map entry_of folders, None)"
    by (intro readdir_listing) simp_all
qed

lemma stale_empty_listing:
  "snd (readdir empty_store 0 ''/docs'' 0 (init_state []))
     = \<lparr>file_size_cache = Cache None,
        attr_cache = Cache (Some ATTR_VALIDITY_PERIOD),
        readdir_file_cache = \<lparr>ttl = Some ATTR_VALIDITY_PERIOD, entries = [(''/docs'', Some [], 0)]\<rparr>,
        readdir_folder_cache = \<lparr>ttl = Some ATTR_VALIDITY_PERIOD, entries = [(''/docs'', Some [], 0)]\<rparr>,
        binary_cache = [],
        requests = [View ''file/byFolder'' ''/docs'', View ''folder/byFolder'' ''/docs'']\<rparr>"
  by (simp add: readdir_def file_listing_def folder_listing_def listing_def cache_get_def
      cache_add_def cache_mutate_def init_state_def Cache_def empty_store_def normalize_docs
      Let_def)

lemma stale_docs_listing:
  "snd (readdir docs_store 0 ''/docs'' 0 (init_state []))
     = \<lparr>file_size_cache = Cache None,
        attr_cache = Cache (Some ATTR_VALIDITY_PERIOD),
        readdir_file_cache =
          \<lparr>ttl = Some ATTR_VALIDITY_PERIOD, entries = [(''/docs'', Some [a_txt], 0)]\<rparr>,
        readdir_folder_cache =
          \<lparr>ttl = Some ATTR_VALIDITY_PERIOD, entries = [(''/docs'', Some [], 0)]\<rparr>,
        binary_cache = [],
        requests = [View ''file/byFolder'' ''/docs'', View ''folder/byFolder'' ''/docs'']\<rparr>"
proof -
  have "direntries [a_txt] = ([Direntry ''a.txt''], None)"
    by (simp add: a_txt_def)
  then show ?thesis
    by (simp add: readdir_def file_listing_def folder_listing_def listing_def cache_get_def
        cache_add_def cache_mutate_def init_state_def Cache_def docs_store_def normalize_docs
        Let_def)
qed

lemma docs_views:
  "view docs_store ''file/byFolder'' ''/docs'' = Inr [a_txt]"
  "view docs_store ''folder/byFolder'' ''/docs'' = Inr []"
  "view empty_store ''file/byFolder'' ''/docs'' = Inr []"
  "view empty_store ''folder/byFolder'' ''/docs'' = Inr []"
  "named a_txt"
  "entry_of a_txt = Direntry ''a.txt''"
  by (simp_all add: docs_store_def empty_store_def named_def entry_of_def a_txt_def)

text \<open>
  The listing of \<^verbatim>\<open>/docs\<close> in the scenario's store, in the state a listing of the same
  path left at time 0 when the store was still empty: at time 5 the cached empty listing
  is in effect, at time 11 it has expired and the store's records are listed; and in the
  state a listing against the scenario's store itself left, at time 5.
\<close>

theorem readdir_order_witness:
  "fst (readdir docs_store 5 ''/docs'' 0 (snd (readdir empty_store 0 ''/docs'' 0 (init_state []))))
     = ([Direntry ''.'', Direntry ''..''], None)
   \<and> reachable UNIV (snd (readdir empty_store 0 ''/docs'' 0 (init_state [])))
   \<and> fst (readdir docs_store 11 ''/docs'' 0 (snd (readdir empty_store 0 ''/docs'' 0 (init_state []))))
       = ([Direntry ''.'', Direntry ''..'', Direntry ''a.txt''], None)
   \<and> reachable {docs_store} (snd (readdir docs_store 0 ''/docs'' 0 (init_state [])))
   \<and> fst (readdir docs_store 5 ''/docs'' 0 (snd (readdir docs_store 0 ''/docs'' 0 (init_state []))))
       = ([Direntry ''.'', Direntry ''..'', Direntry ''a.txt''], None)"
proof -
  let ?stale = "snd (readdir empty_store 0 ''/docs'' 0 (init_state []))"
  let ?warm = "snd (readdir docs_store 0 ''/docs'' 0 (init_state []))"
  have r1: "reachable UNIV ?stale"
    by (rule reach_readdir [OF reach_init]) simp
  have r2: "reachable {docs_store} ?warm"
    by (rule reach_readdir [OF reach_init]) simp
  have e5: "listing_in_effect 5 (readdir_file_cache ?stale)
              (view docs_store ''file/byFolder'' ''/docs'') ''/docs'' = Inr []"
    "listing_in_effect 5 (readdir_folder_cache ?stale)
              (view docs_store ''folder/byFolder'' ''/docs'') ''/docs'' = Inr []"
    by (simp_all add: stale_empty_listing listing_in_effect_def cache_get_def
        ATTR_VALIDITY_PERIOD_def)
  have e11: "no_recent 11 (readdir_file_cache ?stale) ''/docs''"
    "no_recent 11 (readdir_folder_cache ?stale) ''/docs''"
    by (simp_all add: stale_empty_listing no_recent_def ATTR_VALIDITY_PERIOD_def)
  show ?thesis
    using r1 r2 e5 e11
      readdir_order [of 5 ?stale docs_store "''/docs''" "[]" "[]" 0 UNIV]
      readdir_order [of 11 ?stale docs_store "''/docs''" "[a_txt]" "[]" 0 UNIV]
      readdir_order [of 5 ?warm docs_store "''/docs''" "[a_txt]" "[]" 0 UNIV]
    by (simp add: normalize_docs docs_views)
qed

text \<open>
  C6 as stated fails: five seconds after a listing of \<^verbatim>\<open>/docs\<close> was cached from a store
  that was still empty, the store holds the File record \<^verbatim>\<open>a.txt\<close> with parent
  \<^verbatim>\<open>/docs\<close>, and \<^verbatim>\<open>readdir("/docs")\<close> yields the two conventional entries only.
\<close>

theorem readdir_order_counterexample:
  "view docs_store ''file/byFolder'' (normalize_path ''/docs'') = Inr [a_txt]
   \<and> a_txt ''name'' = Some (PStr ''a.txt'')
   \<and> fst (readdir docs_store 5 ''/docs'' 0 (snd (readdir empty_store 0 ''/docs'' 0 (init_state []))))
       = ([Direntry ''.'', Direntry ''..''], None)"
proof -
  let ?stale = "snd (readdir empty_store 0 ''/docs'' 0 (init_state []))"
  have "listing_in_effect 5 (readdir_file_cache ?stale)
          (view docs_store ''file/byFolder'' (normalize_path ''/docs'')) (normalize_path ''/docs'')
          = Inr []"
    "listing_in_effect 5 (readdir_folder_cache ?stale)
          (view docs_store ''folder/byFolder'' (normalize_path ''/docs'')) (normalize_path ''/docs'')
          = Inr []"
    by (simp_all add: stale_empty_listing listing_in_effect_def cache_get_def
        ATTR_VALIDITY_PERIOD_def normalize_docs)
  from readdir_in_effect [OF this, of 0]
  show ?thesis
    by (simp add: normalize_docs docs_views a_txt_def)
qed

text \<open>
  C10, as amended. \<^verbatim>\<open>readdir\<close> never reports that a path does not exist: for every
  path, store and state its entries begin with \<^verbatim>\<open>"."\<close> and \<^verbatim>\<open>".."\<close>. It yields exactly
  these two entries, and ends without an exception, when both listings in effect are
  empty: for a path with no child File or Folder record in the store at the call, that is
  so in every state the adapter reaches in which neither listing cache holds an entry for
  the normalized path younger than the validity period of 10 seconds, and in every state
  reached while serving calls against the store of the call.
\<close>

theorem readdir_never_not_found:
  "(\<exists>rest. fst (fst (readdir e now path offset s)) = Direntry ''.'' # Direntry ''..'' # rest)
   \<and> (listing_in_effect now (readdir_file_cache s)
          (view e ''file/byFolder'' (normalize_path path)) (normalize_path path) = Inr []
        \<and> listing_in_effect now (readdir_folder_cache s)
          (view e ''folder/byFolder'' (normalize_path path)) (normalize_path path) = Inr []
      \<longrightarrow> fst (readdir e now path offset s) = ([Direntry ''.'', Direntry ''..''], None))
   \<and> (reachable E s
        \<and> no_recent now (readdir_file_cache s) (normalize_path path)
        \<and> no_recent now (readdir_folder_cache s) (normalize_path path)
        \<and> view e ''file/byFolder'' (normalize_path path) = Inr []
        \<and> view e ''folder/byFolder'' (normalize_path path) = Inr []
      \<longrightarrow> fst (readdir e now path offset s) = ([Direntry ''.'', Direntry ''..''], None))
   \<and> (reachable {e} s
        \<and> view e ''file/byFolder'' (normalize_path path) = Inr []
        \<and> view e ''folder/byFolder'' (normalize_path path) = Inr []
      \<longrightarrow> fst (readdir e now path offset s) = ([Direntry ''.'', Direntry ''..''], None))"
proof (intro conjI impI)
  show "\<exists>rest. fst (fst (readdir e now path offset s)) = Direntry ''.'' # Direntry ''..'' # rest"
    by (rule readdir_head)
next
  assume a: "listing_in_effect now (readdir_file_cache s)
          (view e ''file/byFolder'' (normalize_path path)) (normalize_path path) = Inr []
        \<and> listing_in_effect now (readdir_folder_cache s)
          (view e ''folder/byFolder'' (normalize_path path)) (normalize_path path) = Inr []"
  from readdir_in_effect [of now s e path "[]" "[]" offset] a
  show "fst (readdir e now path offset s) = ([Direntry ''.'', Direntry ''..''], None)"
    by simp
next
  assume a: "reachable E s
        \<and> no_recent now (readdir_file_cache s) (normalize_path path)
        \<and> no_recent now (readdir_folder_cache s) (normalize_path path)
        \<and> view e ''file/byFolder'' (normalize_path path) = Inr []
        \<and> view e ''folder/byFolder'' (normalize_path path) = Inr []"
  then have "listings_expire s" using reachable_listings_expire [of E s] by blast
  from readdir_expired [OF this, of now path e "[]" "[]" offset] a
  show "fst (readdir e now path offset s) = ([Direntry ''.'', Direntry ''..''], None)"
    by simp
next
  assume a: "reachable {e} s
        \<and> view e ''file/byFolder'' (normalize_path path) = Inr []
        \<and> view e ''folder/byFolder'' (normalize_path path) = Inr []"
  then have "listing_ok e s" by (simp add: reachable_listing_ok)
  from readdir_listing [OF this, of path "[]" "[]" now offset] a
  show "fst (readdir e now path offset s) = ([Direntry ''.'', Direntry ''..''], None)"
    by simp
qed

text \<open>
  The listing of \<^verbatim>\<open>/docs\<close> in a store without any record, in the state a listing of the
  scenario's store left at time 0: at time 11 the cached listing has expired and the two
  conventional entries are all; and a path with no record anywhere, in a state reached
  against the empty store itself.
\<close>

theorem readdir_never_not_found_witness:
  "reachable UNIV (snd (readdir docs_store 0 ''/docs'' 0 (init_state [])))
   \<and> fst (readdir empty_store 11 ''/docs'' 0 (snd (readdir docs_store 0 ''/docs'' 0 (init_state []))))
       = ([Direntry ''.'', Direntry ''..''], None)
   \<and> reachable {empty_store} (snd (getattr empty_store 0 ''/missing'' (init_state [])))
   \<and> fst (readdir empty_store 1 ''/missing'' 0
            (snd (getattr empty_store 0 ''/missing'' (init_state []))))
       = ([Direntry ''.'', Direntry ''..''], None)"
proof -
  let ?warm = "snd (readdir docs_store 0 ''/docs'' 0 (init_state []))"
  let ?s = "snd (getattr empty_store 0 ''/missing'' (init_state []))"
  have r1: "reachable UNIV ?warm"
    by (rule reach_readdir [OF reach_init]) simp
  have r2: "reachable {empty_store} ?s"
    by (rule reach_getattr [OF reach_init]) simp
  have e11: "no_recent 11 (readdir_file_cache ?warm) ''/docs''"
    "no_recent 11 (readdir_folder_cache ?warm) ''/docs''"
    by (simp_all add: stale_docs_listing no_recent_def ATTR_VALIDITY_PERIOD_def)
  have v: "view empty_store ''file/byFolder'' (normalize_path ''/missing'') = Inr []"
    "view empty_store ''folder/byFolder'' (normalize_path ''/missing'') = Inr []"
    by (simp_all add: empty_store_def)
  show ?thesis
    using r1 r2 e11 v
      readdir_never_not_found [of empty_store 11 "''/docs''" 0 ?warm UNIV]
      readdir_never_not_found [of empty_store 1 "''/missing''" 0 ?s UNIV]
    by (simp add: normalize_docs docs_views)
qed

text \<open>
  C10 as stated fails: five seconds after a listing of \<^verbatim>\<open>/docs\<close> was cached from the
  scenario's store, the store holds no record at all, and \<^verbatim>\<open>readdir("/docs")\<close> still
  yields \<^verbatim>\<open>a.txt\<close> after the two conventional entries.
\<close>

theorem readdir_never_not_found_counterexample:
  "view empty_store ''file/byFolder'' (normalize_path ''/docs'') = Inr []
   \<and> view empty_store ''folder/byFolder'' (normalize_path ''/docs'') = Inr []
   \<and> fst (readdir empty_store 5 ''/docs'' 0 (snd (readdir docs_store 0 ''/docs'' 0 (init_state []))))
       = ([Direntry ''.'', Direntry ''..'', Direntry ''a.txt''], None)"
proof -
  let ?warm = "snd (readdir docs_store 0 ''/docs'' 0 (init_state []))"
  have "listing_in_effect 5 (readdir_file_cache ?warm)
          (view empty_store ''file/byFolder'' (normalize_path ''/docs'')) (normalize_path ''/docs'')
          = Inr [a_txt]"
    "listing_in_effect 5 (readdir_folder_cache ?warm)
          (view empty_store ''folder/byFolder'' (normalize_path ''/docs'')) (normalize_path ''/docs'')
          = Inr []"
    by (simp_all add: stale_docs_listing listing_in_effect_def cache_get_def
        ATTR_VALIDITY_PERIOD_def normalize_docs)
  from readdir_in_effect [OF this, of 0]
  show ?thesis
    by (simp add: normalize_docs docs_views)
qed

section \<open>Which key each cache uses\<close>

text \<open>
  C9, as amended. The file-size cache and the two listing caches are keyed by the
  normalized path: in every state the adapter reaches all their keys are normalized paths,
  \<^verbatim>\<open>readdir\<close> and \<^verbatim>\<open>read\<close> insert under no key but the normalized form of their path, and
  their results depend on these caches through the entry of that key alone. The attribute
  cache is keyed by the path as \<^verbatim>\<open>getattr\<close> receives it: \<^verbatim>\<open>getattr\<close> inserts under no key
  but its path, not normalized, and its result depends on the cache through the entry of
  that key alone.
\<close>

theorem cache_keys_by_cache:
  "(reachable E s \<longrightarrow>
      normalized_keys (file_size_cache s) \<and> normalized_keys (readdir_file_cache s)
      \<and> normalized_keys (readdir_folder_cache s))
   \<and> cache_keys (readdir_file_cache (snd (readdir e now path offset s)))
        \<subseteq> insert (normalize_path path) (cache_keys (readdir_file_cache s))
   \<and> cache_keys (readdir_folder_cache (snd (readdir e now path offset s)))
        \<subseteq> insert (normalize_path path) (cache_keys (readdir_folder_cache s))
   \<and> cache_keys (file_size_cache (snd (read e now path sz offset s)))
        \<subseteq> insert (normalize_path path) (cache_keys (file_size_cache s))
   \<and> cache_keys (attr_cache (snd (getattr e now path s)))
        \<subseteq> insert path (cache_keys (attr_cache s))
   \<and> (cache_get now (readdir_file_cache s') (normalize_path path)
          = cache_get now (readdir_file_cache s) (normalize_path path)
        \<and> cache_get now (readdir_folder_cache s') (normalize_path path)
          = cache_get now (readdir_folder_cache s) (normalize_path path)
      \<longrightarrow> fst (readdir e now path offset s') = fst (readdir e now path offset s))
   \<and> (binary_cache s' = binary_cache s
        \<and> cache_get now (file_size_cache s') (normalize_path path)
          = cache_get now (file_size_cache s) (normalize_path path)
      \<longrightarrow> fst (read e now path sz offset s') = fst (read e now path sz offset s))
   \<and> (cache_get now (attr_cache s') path = cache_get now (attr_cache s) path
      \<longrightarrow> fst (getattr e now path s') = fst (getattr e now path s))"
  using reachable_normalized_keys [of E s]
    readdir_file_keys [of e now path offset s] readdir_folder_keys [of e now path offset s]
    read_keys [of e now path sz offset s] getattr_keys [of e now path s]
    readdir_lookup [of now s' path s e offset] read_lookup [of s' s now path e sz offset]
    getattr_lookup [of now s' path s e]
  by blast

text \<open>
  A listing of \<^verbatim>\<open>//docs/\<close> is cached under \<^verbatim>\<open>/docs\<close>; the descriptor of \<^verbatim>\<open>/docs/\<close>
  is cached under \<^verbatim>\<open>/docs/\<close>.
\<close>

theorem cache_keys_by_cache_witness:
  "reachable UNIV (snd (readdir docs_store 0 ''//docs/'' 0 (init_state [])))
   \<and> normalized_keys (readdir_file_cache (snd (readdir docs_store 0 ''//docs/'' 0 (init_state []))))
   \<and> cache_keys (readdir_file_cache (snd (readdir docs_store 0 ''//docs/'' 0 (init_state []))))
        \<subseteq> {''/docs''}
   \<and> cache_keys (attr_cache (snd (getattr docs_store 0 ''/docs/'' (init_state []))))
        \<subseteq> {''/docs/''}"
proof -
  let ?s = "snd (readdir docs_store 0 ''//docs/'' 0 (init_state []))"
  have r: "reachable UNIV ?s"
    by (rule reach_readdir [OF reach_init]) simp
  have k: "cache_keys (readdir_file_cache (init_state [])) = {}"
    "cache_keys (attr_cache (init_state [])) = {}"
    by (simp_all add: cache_keys_def init_state_def Cache_def)
  show ?thesis
    using r cache_keys_by_cache [of UNIV ?s docs_store 0 "''//docs/''" 0 0 ?s]
      cache_keys_by_cache [of UNIV "init_state []" docs_store 0 "''//docs/''" 0 0 "init_state []"]
      cache_keys_by_cache [of UNIV "init_state []" docs_store 0 "''/docs/''" 0 0 "init_state []"]
    by (simp add: k normalize_docs)
qed

text \<open>
  C9 as stated fails on the attribute cache: \<^verbatim>\<open>getattr("/")\<close> caches its descriptor
  under \<^verbatim>\<open>"/"\<close>, whose normalized form is the empty string, and \<^verbatim>\<open>getattr("/docs/")\<close>
  under \<^verbatim>\<open>"/docs/"\<close>, whose normalized form is \<^verbatim>\<open>"/docs"\<close>.
\<close>

theorem attr_cache_key_counterexample:
  "cache_keys (attr_cache (snd (getattr docs_store 0 ''/'' (init_state [])))) = {''/''}
   \<and> normalize_path ''/'' = []
   \<and> cache_keys (attr_cache (snd (getattr docs_store 0 ''/docs/'' (init_state [])))) = {''/docs/''}
   \<and> normalize_path ''/docs/'' = ''/docs''"
  by (simp add: getattr_def getattr_try_def resolve_def cache_get_def cache_add_def
      cache_keys_def init_state_def Cache_def ask_def docs_store_def normalize_path_def Let_def)

end
